theory Spec2Isabelle
  imports Main "HOL-Library.AList"
begin

section \<open>The Rasa Core HTTP server: request handlers over the tracker store\<close>

text \<open>
  The development embeds \<^verbatim>\<open>rasa_core/server.py\<close>: the function
  \<^verbatim>\<open>convert_obj_2_tracker_events\<close> and the handlers of \<^verbatim>\<open>RasaCoreServer\<close>.
  The handlers call three collaborators whose code is not part of the examined file: the
  event model (\<^verbatim>\<open>rasa_core.events.Event\<close>), the tracker and the tracker store reached
  through \<^verbatim>\<open>self.agent.tracker_store\<close>, and the agent's message handling. The first
  two are modelled from the specification (sections 3, 4 and 6); the message handling, about
  which the specification says nothing, is a parameter. Python exceptions are values of the
  type \<open>error\<close>; a handler's world (durable store, pending backend faults, log of
  collaborator calls) is passed explicitly.
\<close>

subsection \<open>JSON values\<close>

text \<open>
  What \<^verbatim>\<open>json.loads\<close> returns: \<^verbatim>\<open>None\<close>, booleans, numbers, strings, lists and
  dicts. A dict is an association list looked up with \<open>map_of\<close>; \<^verbatim>\<open>del d[k]\<close> is
  \<open>AList.delete\<close>; the keys of a dict are distinct, so both agree with Python. No handler computes with a number, so \<open>JNum\<close> carries an integer
  and fractions are left out.
\<close>

datatype json =
    JNull
  | JBool bool
  | JNum int
  | JStr string
  | JArr "json list"
  | JObj "(string \<times> json) list"

datatype error =
    ValueError
  | TypeError
  | AttributeError
  | IndexError
  | KeyError
  | UnknownEventKind
  | InvalidEventParams
  | PersistenceError
  | AgentError string

subsection \<open>Event model\<close>

text \<open>
  Modelled from the spec: the event model of \<^verbatim>\<open>rasa_core.events\<close> is not in the
  examined file. Section 3 gives the kinds \<^verbatim>\<open>SlotSet{name, value}\<close>,
  \<^verbatim>\<open>ActionExecuted{action_name}\<close>, \<^verbatim>\<open>UserUttered{text, parsed_data}\<close> and
  \<^verbatim>\<open>Restarted{}\<close>; section 6 gives the domain's \<^verbatim>\<open>slot_exists\<close> and
  \<^verbatim>\<open>action_exists\<close>. Timestamps are left out: no handler reads or sets one.
\<close>

datatype event =
    SlotSet string json
  | ActionExecuted string
  | UserUttered json json
  | Restarted

record domain =
  slot_names :: "string list"
  action_names :: "string list"

definition slot_exists :: "domain \<Rightarrow> string \<Rightarrow> bool" where
  "slot_exists d n = (n \<in> set (slot_names d))"

definition action_exists :: "domain \<Rightarrow> string \<Rightarrow> bool" where
  "action_exists d n = (n \<in> set (action_names d))"

text \<open>
  Modelled from the spec: the statically known kind tags. Section 6 and section 8 write
  \<^verbatim>\<open>set_slot\<close> and \<^verbatim>\<open>action_executed\<close> on the wire; the tags of the other two
  kinds are not given there and are named in the same style. No theorem below depends on
  the spelling of a tag, only on \<open>known_kind\<close>.
\<close>

definition known_kinds :: "string list" where
  "known_kinds = [''set_slot'', ''action_executed'', ''user_uttered'', ''restarted'']"

fun known_kind :: "json \<Rightarrow> bool" where
  "known_kind (JStr k) = (k \<in> set known_kinds)"
| "known_kind _ = False"

text \<open>
  Modelled from the spec: \<^verbatim>\<open>construct(kind, params, domain)\<close> of section 4.1, called
  \<^verbatim>\<open>Event.from_parameters\<close> by the server. It fails with \<open>UnknownEventKind\<close> if the
  kind is not recognised and with \<open>InvalidEventParams\<close> if a required parameter is missing
  or fails domain validation. It is pure.
\<close>

definition from_parameters ::
  "json \<Rightarrow> (string \<times> json) list \<Rightarrow> domain \<Rightarrow> error + event" where
  "from_parameters etype params d =
     (if etype = JStr ''set_slot'' then
        (case (map_of params ''name'', map_of params ''value'') of
           (Some (JStr n), Some v) \<Rightarrow>
             if slot_exists d n then Inr (SlotSet n v) else Inl InvalidEventParams
         | _ \<Rightarrow> Inl InvalidEventParams)
      else if etype = JStr ''action_executed'' then
        (case map_of params ''action_name'' of
           Some (JStr a) \<Rightarrow>
             if action_exists d a then Inr (ActionExecuted a) else Inl InvalidEventParams
         | _ \<Rightarrow> Inl InvalidEventParams)
      else if etype = JStr ''user_uttered'' then
        (case (map_of params ''text'', map_of params ''parsed_data'') of
           (Some t, Some p) \<Rightarrow> Inr (UserUttered t p)
         | _ \<Rightarrow> Inl InvalidEventParams)
      else if etype = JStr ''restarted'' then Inr Restarted
      else Inl UnknownEventKind)"

text \<open>
  Modelled from the spec: the wire shape of an event, the one it arrived in (section 6).
\<close>

fun as_dict :: "event \<Rightarrow> json" where
  "as_dict (SlotSet n v) =
     JObj [(''event'', JStr ''set_slot''), (''name'', JStr n), (''value'', v)]"
| "as_dict (ActionExecuted a) =
     JObj [(''event'', JStr ''action_executed''), (''action_name'', JStr a)]"
| "as_dict (UserUttered t p) =
     JObj [(''event'', JStr ''user_uttered''), (''text'', t), (''parsed_data'', p)]"
| "as_dict Restarted = JObj [(''event'', JStr ''restarted'')]"

subsection \<open>Calls to collaborators\<close>

text \<open>
  The claims about the handlers are claims about which collaborator is called, with what,
  and in which order. Every call a handler makes is therefore logged, in program order.
\<close>

datatype call =
    JsonLoads string
  | FromParameters json "(string \<times> json) list"
  | GetOrCreateTracker string
  | CreateTracker string
  | TrackerUpdate string event
  | Save string "event list"
  | CurrentState string bool
  | StartMessageHandling json string
  | ContinueMessageHandling string json "event list"

subsection \<open>\<^verbatim>\<open>convert_obj_2_tracker_events\<close>\<close>

text \<open>
  One iteration of the loop body on the element \<open>e\<close>:
  \<^verbatim>\<open>etype = e.get("event")\<close> raises \<open>AttributeError\<close> unless \<open>e\<close> is a dict; if the
  value is not \<^verbatim>\<open>None\<close> the key is deleted from \<open>e\<close> itself and the event is
  constructed from what remains. The result is the outcome (an error, or the event to
  append if there is one), the element as the iteration leaves it, and the calls made.
\<close>

fun convert_step :: "domain \<Rightarrow> json \<Rightarrow> (error + event option) \<times> json \<times> call list" where
  "convert_step d (JObj e) =
     (case map_of e ''event'' of
        None \<Rightarrow> (Inr None, JObj e, [])
      | Some JNull \<Rightarrow> (Inr None, JObj e, [])
      | Some etype \<Rightarrow>
          (let e' = AList.delete ''event'' e in
           case from_parameters etype e' d of
             Inl err \<Rightarrow> (Inl err, JObj e', [FromParameters etype e'])
           | Inr ev \<Rightarrow> (Inr (Some ev), JObj e', [FromParameters etype e'])))"
| "convert_step d e = (Inl AttributeError, e, [])"

text \<open>
  The \<^verbatim>\<open>for\<close> loop over a list: \<open>deserialized\<close> is the accumulator; the first exception
  ends the loop and leaves the remaining elements untouched.
\<close>

fun convert_loop ::
  "domain \<Rightarrow> json list \<Rightarrow> event list \<Rightarrow> (error + event list) \<times> json list \<times> call list" where
  "convert_loop d [] deserialized = (Inr deserialized, [], [])"
| "convert_loop d (e # es) deserialized =
     (case convert_step d e of
        (Inl err, e', cs) \<Rightarrow> (Inl err, e' # es, cs)
      | (Inr r, e', cs) \<Rightarrow>
          (case convert_loop d es (deserialized @ (case r of None \<Rightarrow> [] | Some ev \<Rightarrow> [ev])) of
             (res, es', cs') \<Rightarrow> (res, e' # es', cs @ cs')))"

text \<open>
  The function itself. Iterating a dict yields its keys and iterating a string its
  characters, all strings, on which \<^verbatim>\<open>.get\<close> raises \<open>AttributeError\<close>; a number, a
  boolean and \<^verbatim>\<open>None\<close> are not iterable. The second component is the argument as the
  call leaves it.
\<close>

fun convert_obj_2_tracker_events ::
  "json \<Rightarrow> domain \<Rightarrow> (error + event list) \<times> json \<times> call list" where
  "convert_obj_2_tracker_events (JArr es) d =
     (case convert_loop d es [] of (res, es', cs) \<Rightarrow> (res, JArr es', cs))"
| "convert_obj_2_tracker_events (JObj kvs) d =
     (if kvs = [] then (Inr [], JObj kvs, []) else (Inl AttributeError, JObj kvs, []))"
| "convert_obj_2_tracker_events (JStr s) d =
     (if s = [] then (Inr [], JStr s, []) else (Inl AttributeError, JStr s, []))"
| "convert_obj_2_tracker_events v d = (Inl TypeError, v, [])"

subsection \<open>Tracker\<close>

text \<open>
  Modelled from the spec: the tracker of section 4.2, whose code is not in the examined
  file. The derived state holds the latest slot values, the latest executed action, the
  turn count and the latest user input; \<open>apply_event\<close> is the per-kind rule of
  section 4.1; \<open>update\<close> appends the event and applies it to the prior state;
  \<open>current_state\<close> is the snapshot of section 6.
\<close>

record projection =
  slots :: "(string \<times> json) list"
  latest_action :: "string option"
  turn_count :: nat
  latest_input :: "(json \<times> json) option"

record tracker =
  sender_id :: string
  events :: "event list"
  current :: projection

definition empty_projection :: projection where
  "empty_projection =
     \<lparr>slots = [], latest_action = None, turn_count = 0, latest_input = None\<rparr>"

fun apply_event :: "event \<Rightarrow> projection \<Rightarrow> projection" where
  "apply_event (SlotSet n v) p = p\<lparr>slots := AList.update n v (slots p)\<rparr>"
| "apply_event (ActionExecuted a) p =
     p\<lparr>latest_action := Some a, turn_count := Suc (turn_count p)\<rparr>"
| "apply_event (UserUttered t d) p = p\<lparr>latest_input := Some (t, d)\<rparr>"
| "apply_event Restarted p = empty_projection"

definition new_tracker :: "string \<Rightarrow> tracker" where
  "new_tracker cid = \<lparr>sender_id = cid, events = [], current = empty_projection\<rparr>"

definition update :: "event \<Rightarrow> tracker \<Rightarrow> tracker" where
  "update e t = t\<lparr>events := events t @ [e], current := apply_event e (current t)\<rparr>"

definition current_state :: "tracker \<Rightarrow> bool \<Rightarrow> json" where
  "current_state t should_include_events =
     JObj ([(''sender_id'', JStr (sender_id t)),
            (''slots'', JObj (slots (current t))),
            (''latest_action'',
               (case latest_action (current t) of None \<Rightarrow> JNull | Some a \<Rightarrow> JStr a)),
            (''turn_count'', JNum (int (turn_count (current t))))]
           @ (if should_include_events
              then [(''events'', JArr (map as_dict (events t)))] else []))"

subsection \<open>World and tracker store\<close>

text \<open>
  The world a handler runs in: the durable content of the tracker store (conversation id
  to persisted event log), the outcomes of the backend operations still to come (\<open>True\<close>:
  the operation fails; an exhausted list means no more failures), and the log of
  collaborator calls.
\<close>

record world =
  persisted :: "string \<rightharpoonup> event list"
  faults :: "bool list"
  calls :: "call list"

definition log :: "call \<Rightarrow> world \<Rightarrow> world" where
  "log c w = w\<lparr>calls := calls w @ [c]\<rparr>"

definition logs :: "call list \<Rightarrow> world \<Rightarrow> world" where
  "logs cs w = w\<lparr>calls := calls w @ cs\<rparr>"

definition next_fault :: "world \<Rightarrow> bool \<times> world" where
  "next_fault w = (case faults w of [] \<Rightarrow> (False, w) | f # fs \<Rightarrow> (f, w\<lparr>faults := fs\<rparr>))"

text \<open>
  Modelled from the spec: the persistence backend of section 6, \<^verbatim>\<open>load\<close> (an event
  sequence or \<^verbatim>\<open>NotFound\<close>, here \<open>None\<close>) and \<^verbatim>\<open>store\<close>, each failing with
  \<open>PersistenceError\<close> on a backend fault and then leaving the durable state as it was.
\<close>

definition backend_load :: "string \<Rightarrow> world \<Rightarrow> (error + event list option) \<times> world" where
  "backend_load cid w =
     (case next_fault w of
        (True, w') \<Rightarrow> (Inl PersistenceError, w')
      | (False, w') \<Rightarrow> (Inr (persisted w' cid), w'))"

definition backend_store :: "string \<Rightarrow> event list \<Rightarrow> world \<Rightarrow> (error + unit) \<times> world" where
  "backend_store cid evs w =
     (case next_fault w of
        (True, w') \<Rightarrow> (Inl PersistenceError, w')
      | (False, w') \<Rightarrow> (Inr (), w'\<lparr>persisted := (persisted w')(cid \<mapsto> evs)\<rparr>))"

text \<open>
  Modelled from the spec: the tracker store of section 4.3, reached by the server as
  \<^verbatim>\<open>self.agent.tracker_store\<close>. \<open>get_or_create_tracker\<close> returns the tracker
  rehydrated from the persisted events, otherwise creates and persists a new empty one;
  \<open>create_tracker\<close> (the spec's \<^verbatim>\<open>create_fresh\<close>) makes a new empty tracker and touches
  nothing durable; \<open>save\<close> overwrites the persisted log of the tracker's id.
\<close>

definition rehydrate :: "string \<Rightarrow> event list \<Rightarrow> tracker" where
  "rehydrate cid evs = foldl (\<lambda>t e. update e t) (new_tracker cid) evs"

definition get_or_create_tracker :: "string \<Rightarrow> world \<Rightarrow> (error + tracker) \<times> world" where
  "get_or_create_tracker cid w =
     (case backend_load cid w of
        (Inl err, w1) \<Rightarrow> (Inl err, w1)
      | (Inr (Some evs), w1) \<Rightarrow> (Inr (rehydrate cid evs), w1)
      | (Inr None, w1) \<Rightarrow>
          (case backend_store cid [] w1 of
             (Inl err, w2) \<Rightarrow> (Inl err, w2)
           | (Inr _, w2) \<Rightarrow> (Inr (new_tracker cid), w2)))"

definition create_tracker :: "string \<Rightarrow> tracker" where
  "create_tracker cid = new_tracker cid"

definition save :: "tracker \<Rightarrow> world \<Rightarrow> (error + unit) \<times> world" where
  "save t w = backend_store (sender_id t) (events t) w"

subsection \<open>Requests, replies and the server's environment\<close>

text \<open>
  A request as the handlers read it: the method, the query arguments (each key with its
  list of values, undecoded) and the body. A reply is what the handler leaves on the
  request object (response code, headers set) and its outcome: the returned body, or the
  exception that left the handler and reached the web framework. \<open>Dumps j\<close> is the text
  \<^verbatim>\<open>json.dumps(j)\<close>. The \<^verbatim>\<open>check_cors\<close> decorator belongs to another package and
  runs before the handler body; it is outside the model.
\<close>

record request =
  request_method :: string
  args :: "(string \<times> string list) list"
  content :: string

datatype body = Text string | Dumps json

record reply =
  status :: nat
  headers :: "(string \<times> string) list"
  outcome :: "error + body"

text \<open>
  What the server holds or imports and the examined file does not define:
  \<open>loads\<close> is \<^verbatim>\<open>json.loads(request.content.read().decode('utf-8', 'strict'))\<close>, \<open>None\<close>
  when either step raises (both exceptions are \<open>ValueError\<close>s); \<open>decode\<close> is the strict
  UTF-8 decoding of a query argument; \<open>agent_domain\<close> is \<^verbatim>\<open>self.agent.domain\<close>; the
  two message-handling functions are the agent's, returning the response or the text of
  the exception raised; \<open>default_include_events\<close> is the default of
  \<^verbatim>\<open>current_state\<close>'s parameter, used where the server passes no argument.
\<close>

record env =
  loads :: "string \<Rightarrow> json option"
  decode :: "string \<Rightarrow> string option"
  agent_domain :: domain
  start_message_handling :: "json \<Rightarrow> string \<Rightarrow> world \<Rightarrow> (string + json) \<times> world"
  continue_message_handling ::
    "string \<Rightarrow> json \<Rightarrow> event list \<Rightarrow> world \<Rightarrow> (string + json) \<times> world"
  version :: string
  default_include_events :: bool

definition json_headers :: "(string \<times> string) list" where
  "json_headers = [(''Content-Type'', ''application/json'')]"

definition raised :: "error \<Rightarrow> reply" where
  "raised err = \<lparr>status = 200, headers = json_headers, outcome = Inl err\<rparr>"

definition returned :: "nat \<Rightarrow> body \<Rightarrow> reply" where
  "returned c b = \<lparr>status = c, headers = json_headers, outcome = Inr b\<rparr>"

subsection \<open>The handlers\<close>

text \<open>
  \<^verbatim>\<open>for e in events: tracker.update(e)\<close>, each call logged with the tracker's id.
\<close>

fun update_all :: "tracker \<Rightarrow> event list \<Rightarrow> world \<Rightarrow> tracker \<times> world" where
  "update_all t [] w = (t, w)"
| "update_all t (e # es) w = update_all (update e t) es (log (TrackerUpdate (sender_id t) e) w)"

text \<open>\<^verbatim>\<open>hello\<close> and \<^verbatim>\<open>version\<close>.\<close>

definition hello :: "env \<Rightarrow> request \<Rightarrow> world \<Rightarrow> reply \<times> world" where
  "hello env req w =
     (\<lparr>status = 200, headers = [],
       outcome = Inr (Text (''hello from Rasa Core: '' @ version env))\<rparr>, w)"

definition version_handler :: "env \<Rightarrow> request \<Rightarrow> world \<Rightarrow> reply \<times> world" where
  "version_handler env req w =
     (returned 200 (Dumps (JObj [(''version'', JStr (version env))])), w)"

text \<open>
  \<^verbatim>\<open>continue_predicting\<close>: \<^verbatim>\<open>request_params.get\<close> needs a dict; the events default to
  the empty list and the executed action to \<^verbatim>\<open>None\<close>. Nothing is caught.
\<close>

definition continue_predicting :: "env \<Rightarrow> request \<Rightarrow> string \<Rightarrow> world \<Rightarrow> reply \<times> world" where
  "continue_predicting env req cid w =
     (let w1 = log (JsonLoads (content req)) w in
      case loads env (content req) of
        None \<Rightarrow> (raised ValueError, w1)
      | Some (JObj request_params) \<Rightarrow>
          (let encoded_events =
                 (case map_of request_params ''events'' of None \<Rightarrow> JArr [] | Some v \<Rightarrow> v);
               executed_action =
                 (case map_of request_params ''executed_action'' of None \<Rightarrow> JNull | Some v \<Rightarrow> v)
           in case convert_obj_2_tracker_events encoded_events (agent_domain env) of
                (Inl err, _, cs) \<Rightarrow> (raised err, logs cs w1)
              | (Inr evs, _, cs) \<Rightarrow>
                  (case continue_message_handling env cid executed_action evs
                          (log (ContinueMessageHandling cid executed_action evs) (logs cs w1)) of
                     (Inl msg, w2) \<Rightarrow> (raised (AgentError msg), w2)
                   | (Inr response, w2) \<Rightarrow> (returned 200 (Dumps response), w2)))
      | Some _ \<Rightarrow> (raised AttributeError, w1))"

text \<open>
  \<^verbatim>\<open>append_events\<close>: parse the body, construct the events, get or create the tracker,
  update it with each event, save it, return its current state (no argument passed to
  \<^verbatim>\<open>current_state\<close>). Nothing is caught: the first exception leaves the handler.
\<close>

definition append_events :: "env \<Rightarrow> request \<Rightarrow> string \<Rightarrow> world \<Rightarrow> reply \<times> world" where
  "append_events env req cid w =
     (let w1 = log (JsonLoads (content req)) w in
      case loads env (content req) of
        None \<Rightarrow> (raised ValueError, w1)
      | Some request_params \<Rightarrow>
          (case convert_obj_2_tracker_events request_params (agent_domain env) of
             (Inl err, _, cs) \<Rightarrow> (raised err, logs cs w1)
           | (Inr evs, _, cs) \<Rightarrow>
               (case get_or_create_tracker cid (log (GetOrCreateTracker cid) (logs cs w1)) of
                  (Inl err, w2) \<Rightarrow> (raised err, w2)
                | (Inr tracker, w2) \<Rightarrow>
                    (case update_all tracker evs w2 of
                       (tracker', w3) \<Rightarrow>
                         (case save tracker'
                                 (log (Save (sender_id tracker') (events tracker')) w3) of
                            (Inl err, w4) \<Rightarrow> (raised err, w4)
                          | (Inr _, w4) \<Rightarrow>
                              (returned 200
                                 (Dumps (current_state tracker' (default_include_events env))),
                               log (CurrentState (sender_id tracker')
                                      (default_include_events env)) w4))))))"

text \<open>
  \<^verbatim>\<open>retrieve_tracker\<close>: get or create the tracker and return its state with the events.
\<close>

definition retrieve_tracker :: "env \<Rightarrow> request \<Rightarrow> string \<Rightarrow> world \<Rightarrow> reply \<times> world" where
  "retrieve_tracker env req cid w =
     (case get_or_create_tracker cid (log (GetOrCreateTracker cid) w) of
        (Inl err, w1) \<Rightarrow> (raised err, w1)
      | (Inr tracker, w1) \<Rightarrow>
          (returned 200 (Dumps (current_state tracker True)),
           log (CurrentState (sender_id tracker) True) w1))"

text \<open>
  \<^verbatim>\<open>update_tracker\<close>: as \<^verbatim>\<open>append_events\<close>, but on a tracker made by
  \<^verbatim>\<open>create_tracker\<close>, and the state returned includes the events.
\<close>

definition update_tracker :: "env \<Rightarrow> request \<Rightarrow> string \<Rightarrow> world \<Rightarrow> reply \<times> world" where
  "update_tracker env req cid w =
     (let w1 = log (JsonLoads (content req)) w in
      case loads env (content req) of
        None \<Rightarrow> (raised ValueError, w1)
      | Some request_params \<Rightarrow>
          (case convert_obj_2_tracker_events request_params (agent_domain env) of
             (Inl err, _, cs) \<Rightarrow> (raised err, logs cs w1)
           | (Inr evs, _, cs) \<Rightarrow>
               (case update_all (create_tracker cid) evs
                       (log (CreateTracker cid) (logs cs w1)) of
                  (tracker', w3) \<Rightarrow>
                    (case save tracker'
                            (log (Save (sender_id tracker') (events tracker')) w3) of
                       (Inl err, w4) \<Rightarrow> (raised err, w4)
                     | (Inr _, w4) \<Rightarrow>
                         (returned 200 (Dumps (current_state tracker' True)),
                          log (CurrentState (sender_id tracker') True) w4)))))"

subsection \<open>The \<^verbatim>\<open>parse\<close> handler\<close>

text \<open>
  The dict comprehension over \<^verbatim>\<open>request.args.items()\<close>: the first value of each key,
  both decoded; a later item replaces an earlier one with the same decoded key.
\<close>

fun get_params ::
  "(string \<Rightarrow> string option) \<Rightarrow> (string \<times> string list) list \<Rightarrow> (string \<times> json) list
     \<Rightarrow> error + (string \<times> json) list" where
  "get_params dec [] acc = Inr acc"
| "get_params dec ((key, val) # items) acc =
     (case val of
        [] \<Rightarrow> Inl IndexError
      | v # _ \<Rightarrow>
          (case dec v of
             None \<Rightarrow> Inl ValueError
           | Some v' \<Rightarrow>
               (case dec key of
                  None \<Rightarrow> Inl ValueError
                | Some k' \<Rightarrow> get_params dec items (AList.update k' (JStr v') acc))))"

text \<open>
  Python's \<^verbatim>\<open>k in request_params\<close>: key membership for a dict, element membership for a
  list, substring for a string, \<open>TypeError\<close> for anything else. \<^verbatim>\<open>request_params.pop(k)\<close>
  returns the value of a dict; a list's \<^verbatim>\<open>pop\<close> wants an integer and a string has none.
\<close>

definition substring :: "string \<Rightarrow> string \<Rightarrow> bool" where
  "substring k s = list_ex (\<lambda>i. take (length k) (drop i s) = k) [0..<Suc (length s)]"

fun contains :: "string \<Rightarrow> json \<Rightarrow> error + bool" where
  "contains k (JObj kvs) = Inr (k \<in> fst ` set kvs)"
| "contains k (JArr xs) = Inr (JStr k \<in> set xs)"
| "contains k (JStr s) = Inr (substring k s)"
| "contains k _ = Inl TypeError"

fun pop :: "string \<Rightarrow> json \<Rightarrow> error + json" where
  "pop k (JObj kvs) = (case map_of kvs k of None \<Rightarrow> Inl KeyError | Some v \<Rightarrow> Inr v)"
| "pop k (JArr xs) = Inl TypeError"
| "pop k _ = Inl AttributeError"

text \<open>
  The \<^verbatim>\<open>if 'query' ... elif 'q' ... else\<close> chain: the message, or \<open>None\<close> for the
  \<^verbatim>\<open>else\<close> branch.
\<close>

definition select_message :: "json \<Rightarrow> error + json option" where
  "select_message request_params =
     (case contains ''query'' request_params of
        Inl err \<Rightarrow> Inl err
      | Inr True \<Rightarrow>
          (case pop ''query'' request_params of Inl err \<Rightarrow> Inl err | Inr m \<Rightarrow> Inr (Some m))
      | Inr False \<Rightarrow>
          (case contains ''q'' request_params of
             Inl err \<Rightarrow> Inl err
           | Inr True \<Rightarrow>
               (case pop ''q'' request_params of Inl err \<Rightarrow> Inl err | Inr m \<Rightarrow> Inr (Some m))
           | Inr False \<Rightarrow> Inr None))"

text \<open>
  The request parameters: from the query arguments for a \<^verbatim>\<open>GET\<close>, from the body
  otherwise.
\<close>

definition parse_params :: "env \<Rightarrow> request \<Rightarrow> world \<Rightarrow> (error + json) \<times> world" where
  "parse_params env req w =
     (if request_method req = ''GET'' then
        (case get_params (decode env) (args req) [] of
           Inl err \<Rightarrow> (Inl err, w)
         | Inr kvs \<Rightarrow> (Inr (JObj kvs), w))
      else
        (case loads env (content req) of
           None \<Rightarrow> (Inl ValueError, log (JsonLoads (content req)) w)
         | Some p \<Rightarrow> (Inr p, log (JsonLoads (content req)) w)))"

text \<open>
  \<^verbatim>\<open>parse\<close>: only the message handling is inside the \<^verbatim>\<open>try\<close>; an exception there
  becomes a 500 reply carrying its text.
\<close>

definition parse :: "env \<Rightarrow> request \<Rightarrow> string \<Rightarrow> world \<Rightarrow> reply \<times> world" where
  "parse env req cid w =
     (case parse_params env req w of
        (Inl err, w1) \<Rightarrow> (raised err, w1)
      | (Inr request_params, w1) \<Rightarrow>
          (case select_message request_params of
             Inl err \<Rightarrow> (raised err, w1)
           | Inr None \<Rightarrow>
               (returned 404
                  (Dumps (JObj [(''error'', JStr ''Invalid parse parameter specified'')])), w1)
           | Inr (Some message) \<Rightarrow>
               (case start_message_handling env message cid
                       (log (StartMessageHandling message cid) w1) of
                  (Inr response, w2) \<Rightarrow> (returned 200 (Dumps response), w2)
                | (Inl msg, w2) \<Rightarrow>
                    (returned 500 (Dumps (JObj [(''error'', JStr msg)])), w2))))"

subsection \<open>Notions used in the statements\<close>

text \<open>
  The words of the claims about a serialized batch, as definitions of their own, to be
  compared with what the functions above compute. A mapping is a JSON object; its event
  kind is the value under the key \<^verbatim>\<open>event\<close>; it bears an event if that value is
  present and not \<^verbatim>\<open>None\<close>. \<open>without_event\<close> is the mapping with the key deleted and
  \<open>params_of\<close> its remaining entries, the construction parameters. \<open>left_by_convert\<close>
  is what the claim says the conversion leaves of a mapping, and \<open>construct\<close> the
  construction of the event a mapping describes.
\<close>

fun is_mapping :: "json \<Rightarrow> bool" where
  "is_mapping (JObj e) = True"
| "is_mapping _ = False"

fun event_kind :: "json \<Rightarrow> json option" where
  "event_kind (JObj e) = map_of e ''event''"
| "event_kind _ = None"

definition bears_event :: "json \<Rightarrow> bool" where
  "bears_event m =
     (case event_kind m of None \<Rightarrow> False | Some JNull \<Rightarrow> False | Some _ \<Rightarrow> True)"

fun without_event :: "json \<Rightarrow> json" where
  "without_event (JObj e) = JObj (AList.delete ''event'' e)"
| "without_event v = v"

fun params_of :: "json \<Rightarrow> (string \<times> json) list" where
  "params_of (JObj e) = AList.delete ''event'' e"
| "params_of _ = []"

definition left_by_convert :: "json \<Rightarrow> json" where
  "left_by_convert m = (if bears_event m then without_event m else m)"

definition kind_of :: "json \<Rightarrow> json" where
  "kind_of m = (case event_kind m of Some k \<Rightarrow> k | None \<Rightarrow> JNull)"

definition construct :: "domain \<Rightarrow> json \<Rightarrow> error + event" where
  "construct d m = from_parameters (kind_of m) (params_of m) d"

definition construct_call :: "json \<Rightarrow> call" where
  "construct_call m = FromParameters (kind_of m) (params_of m)"

fun is_construct :: "call \<Rightarrow> bool" where
  "is_construct (FromParameters k ps) = True"
| "is_construct _ = False"

text \<open>
  The calls a handler added to the log, the events of the update calls among them, and the
  place of a call in the pipeline of section 2 (deserialize, construct, fetch or create,
  apply, persist, serialize).
\<close>

definition new_calls :: "world \<Rightarrow> world \<Rightarrow> call list" where
  "new_calls w w' = drop (length (calls w)) (calls w')"

fun is_update :: "call \<Rightarrow> bool" where
  "is_update (TrackerUpdate c e) = True"
| "is_update _ = False"

fun is_save :: "call \<Rightarrow> bool" where
  "is_save (Save c evs) = True"
| "is_save _ = False"

fun applied :: "call list \<Rightarrow> event list" where
  "applied [] = []"
| "applied (TrackerUpdate c e # cs) = e # applied cs"
| "applied (_ # cs) = applied cs"

fun stage :: "call \<Rightarrow> nat" where
  "stage (JsonLoads s) = 0"
| "stage (FromParameters k ps) = 1"
| "stage (GetOrCreateTracker c) = 2"
| "stage (CreateTracker c) = 2"
| "stage (TrackerUpdate c e) = 3"
| "stage (Save c evs) = 4"
| "stage (CurrentState c b) = 5"
| "stage (StartMessageHandling m c) = 6"
| "stage (ContinueMessageHandling c a evs) = 6"

text \<open>
  The persisted event log of a conversation id, empty if there is none; whether a reply
  is a returned body; the event list of a snapshot.
\<close>

definition stored_events :: "world \<Rightarrow> string \<Rightarrow> event list" where
  "stored_events w cid = (case persisted w cid of None \<Rightarrow> [] | Some evs \<Rightarrow> evs)"

definition succeeded :: "reply \<Rightarrow> bool" where
  "succeeded r = (case outcome r of Inl err \<Rightarrow> False | Inr b \<Rightarrow> True)"

fun snapshot_events :: "json \<Rightarrow> json option" where
  "snapshot_events (JObj kvs) = map_of kvs ''events''"
| "snapshot_events _ = None"

text \<open>
  A mapping is accepted if the loop passes over it without an exception: it is skipped, or
  the event it describes can be constructed.
\<close>

definition accepted :: "domain \<Rightarrow> json \<Rightarrow> bool" where
  "accepted d m =
     (is_mapping m \<and>
      (bears_event m \<longrightarrow> (case construct d m of Inl err \<Rightarrow> False | Inr ev \<Rightarrow> True)))"

text \<open>
  The exception an element of the batch raises in the loop, if any: \<open>AttributeError\<close> if
  it is not a mapping, the error of the construction if it bears an event that cannot be
  constructed. An element is accepted exactly when it raises none.
\<close>

definition step_error :: "domain \<Rightarrow> json \<Rightarrow> error option" where
  "step_error d m =
     (if \<not> is_mapping m then Some AttributeError
      else if bears_event m
           then (case construct d m of Inl err \<Rightarrow> Some err | Inr ev \<Rightarrow> None)
           else None)"

text \<open>
  What the frame property of the handlers that hand the request to the agent rests on:
  the agent's handling of a message for one conversation id leaves the persisted logs of
  the other ids as they were. The agent's code is not in the examined file.
\<close>

definition agent_scoped :: "env \<Rightarrow> bool" where
  "agent_scoped env =
     ((\<forall>message cid w c. c \<noteq> cid \<longrightarrow>
         persisted (snd (start_message_handling env message cid w)) c = persisted w c) \<and>
      (\<forall>cid action evs w c. c \<noteq> cid \<longrightarrow>
         persisted (snd (continue_message_handling env cid action evs w)) c = persisted w c))"

subsection \<open>Example inputs\<close>

text \<open>
  A domain with one slot and one action, an environment whose \<open>loads\<close> is a table from
  request bodies to their parsed values and whose agent echoes the message, a request with
  a given body, and a world in which conversation \<^verbatim>\<open>c\<close> has a persisted history.
\<close>

definition example_domain :: domain where
  "example_domain = \<lparr>slot_names = [''x''], action_names = [''utter_greet'']\<rparr>"

definition example_env :: "(string \<times> json) list \<Rightarrow> env" where
  "example_env bodies =
     \<lparr>loads = map_of bodies, decode = Some, agent_domain = example_domain,
      start_message_handling = (\<lambda>message cid w. (Inr (JObj [(''text'', message)]), w)),
      continue_message_handling = (\<lambda>cid action evs w. (Inr (JObj [(''next_action'', action)]), w)),
      version = ''0.8.0'', default_include_events = False\<rparr>"

definition example_request :: "string \<Rightarrow> request" where
  "example_request b = \<lparr>request_method = ''POST'', args = [], content = b\<rparr>"

definition example_world :: world where
  "example_world = \<lparr>persisted = [''c'' \<mapsto> [Restarted]], faults = [], calls = []\<rparr>"

definition example_batch :: json where
  "example_batch =
     JArr [JObj [(''event'', JStr ''action_executed''), (''action_name'', JStr ''utter_greet'')],
           JObj [(''note'', JStr ''no event key'')],
           JObj [(''event'', JStr ''set_slot''), (''name'', JStr ''x''), (''value'', JNum 2)]]"

text \<open>
  A mapping of unknown kind, two mappings the loop accepts, and a mapping of a known kind
  that lacks its parameters.
\<close>

definition unknown_mapping :: json where
  "unknown_mapping = JObj [(''event'', JStr ''bogus''), (''name'', JStr ''x'')]"

definition accepted_mappings :: "json list" where
  "accepted_mappings =
     [JObj [(''event'', JStr ''restarted'')], JObj [(''note'', JStr ''no event key'')]]"

definition invalid_mapping :: json where
  "invalid_mapping = JObj [(''event'', JStr ''set_slot'')]"

section \<open>Auxiliary facts\<close>

subsection \<open>The conversion loop\<close>

text \<open>
  An unknown kind is refused by the construction; one iteration of the loop skips a
  mapping without an event, constructs from one with an event, and raises on anything
  that is not a mapping; the loop makes construction calls only.
\<close>

lemma from_parameters_unknown:
  "\<not> known_kind etype \<Longrightarrow> from_parameters etype ps d = Inl UnknownEventKind"
  by (cases etype) (auto simp: from_parameters_def known_kinds_def)

lemma convert_step_skip:
  "is_mapping m \<Longrightarrow> \<not> bears_event m \<Longrightarrow> convert_step d m = (Inr None, m, [])"
  by (cases m) (auto simp: bears_event_def split: option.splits json.splits)

lemma convert_step_bears:
  "is_mapping m \<Longrightarrow> bears_event m \<Longrightarrow>
   convert_step d m =
     (case construct d m of Inl err \<Rightarrow> Inl err | Inr ev \<Rightarrow> Inr (Some ev),
      without_event m, [construct_call m])"
  by (cases m) (auto simp: bears_event_def construct_def construct_call_def kind_of_def Let_def
       split: option.splits json.splits sum.splits)

lemma convert_step_not_mapping:
  "\<not> is_mapping m \<Longrightarrow> convert_step d m = (Inl AttributeError, m, [])"
  by (cases m) auto

lemma convert_step_calls: "convert_step d m = (r, m', cs) \<Longrightarrow> list_all is_construct cs"
  by (cases m) (auto simp: Let_def split: option.splits json.splits sum.splits)

lemma convert_loop_calls:
  "convert_loop d es acc = (r, es', cs) \<Longrightarrow> list_all is_construct cs"
proof (induction es arbitrary: acc r es' cs)
  case Nil
  then show ?case by simp
next
  case (Cons e es)
  obtain r1 e1 c1 where s: "convert_step d e = (r1, e1, c1)" by (cases "convert_step d e") auto
  then have c1: "list_all is_construct c1" by (rule convert_step_calls)
  show ?case
  proof (cases r1)
    case (Inl err)
    with Cons.prems s c1 show ?thesis by auto
  next
    case (Inr ro)
    obtain r2 e2 c2 where l: "convert_loop d es (acc @ (case ro of None \<Rightarrow> [] | Some ev \<Rightarrow> [ev])) = (r2, e2, c2)"
      by (cases "convert_loop d es (acc @ (case ro of None \<Rightarrow> [] | Some ev \<Rightarrow> [ev]))") auto
    from Cons.IH [OF l] have "list_all is_construct c2" .
    with Cons.prems s c1 Inr l show ?thesis by auto
  qed
qed

text \<open>
  A loop that returns has passed over mappings only, left each as \<open>left_by_convert\<close> says,
  and constructed, in order, one event for every mapping that bears one.
\<close>

lemma convert_loop_Inr:
  "convert_loop d es acc = (Inr evs, es', cs) \<Longrightarrow>
   list_all is_mapping es \<and> es' = map left_by_convert es \<and>
   cs = map construct_call (filter bears_event es) \<and>
   (\<exists>new. evs = acc @ new \<and> map (construct d) (filter bears_event es) = map Inr new)"
proof (induction es arbitrary: acc evs es' cs)
  case Nil
  then show ?case by simp
next
  case (Cons e es)
  show ?case
  proof (cases "is_mapping e")
    case False
    with Cons.prems show ?thesis by (simp add: convert_step_not_mapping)
  next
    case m: True
    show ?thesis
    proof (cases "bears_event e")
      case False
      with m have s: "convert_step d e = (Inr None, e, [])" by (simp add: convert_step_skip)
      obtain r2 e2 c2 where l: "convert_loop d es acc = (r2, e2, c2)"
        by (cases "convert_loop d es acc") auto
      with Cons.prems s have eq: "r2 = Inr evs" "es' = e # e2" "cs = c2" by auto
      from Cons.IH [OF l [unfolded eq(1)]] m False eq
      show ?thesis by (simp add: left_by_convert_def)
    next
      case True
      note s = convert_step_bears [OF m True, of d]
      show ?thesis
      proof (cases "construct d e")
        case (Inl err)
        with Cons.prems s show ?thesis by simp
      next
        case (Inr ev)
        obtain r2 e2 c2 where l: "convert_loop d es (acc @ [ev]) = (r2, e2, c2)"
          by (cases "convert_loop d es (acc @ [ev])") auto
        with Cons.prems s Inr
        have eq: "r2 = Inr evs" "es' = without_event e # e2" "cs = construct_call e # c2" by auto
        from Cons.IH [OF l [unfolded eq(1)]] m True eq Inr
        show ?thesis by (auto simp: left_by_convert_def)
      qed
    qed
  qed
qed

lemma convert_loop_append:
  "convert_loop d (xs @ ys) acc =
     (case convert_loop d xs acc of
        (Inl err, xs', cs) \<Rightarrow> (Inl err, xs' @ ys, cs)
      | (Inr evs, xs', cs) \<Rightarrow>
          (case convert_loop d ys evs of (r, ys', cs') \<Rightarrow> (r, xs' @ ys', cs @ cs')))"
proof (induction xs arbitrary: acc)
  case Nil
  then show ?case by (simp split: prod.splits)
next
  case (Cons x xs)
  show ?case
    by (cases "convert_step d x") (auto simp: Cons.IH split: prod.splits sum.splits)
qed

lemma convert_loop_unknown:
  assumes "convert_loop d pre acc = (Inr evs, pre', cs)"
    and "bears_event m" and "event_kind m = Some k" and "\<not> known_kind k"
  shows "convert_loop d (pre @ m # post) acc =
           (Inl UnknownEventKind, pre' @ without_event m # post, cs @ [construct_call m])"
proof -
  from assms(2,3) have mp: "is_mapping m" by (cases m) auto
  have "construct d m = Inl UnknownEventKind"
    using assms(3,4) by (simp add: construct_def kind_of_def from_parameters_unknown)
  with convert_step_bears [OF mp assms(2), of d]
  have "convert_step d m = (Inl UnknownEventKind, without_event m, [construct_call m])" by simp
  with assms(1) show ?thesis by (simp add: convert_loop_append)
qed

lemma convert_loop_rejects:
  assumes "m \<in> set es" and "bears_event m" and "event_kind m = Some k" and "\<not> known_kind k"
  shows "\<exists>err es' cs. convert_loop d es acc = (Inl err, es', cs)"
proof -
  from assms(1) obtain pre post where es: "es = pre @ m # post" by (auto simp: in_set_conv_decomp)
  obtain r pre' cs where l: "convert_loop d pre acc = (r, pre', cs)"
    by (cases "convert_loop d pre acc") auto
  show ?thesis
  proof (cases r)
    case (Inl err)
    with l es show ?thesis by (simp add: convert_loop_append)
  next
    case (Inr evs)
    with l convert_loop_unknown [OF _ assms(2,3,4), of d pre acc evs pre' cs post] es
    show ?thesis by simp
  qed
qed

subsection \<open>Tracker and store\<close>

text \<open>
  Updating keeps the id and appends to the log; the update loop is a fold that logs one
  call per event; a backend operation fails exactly when the next pending outcome says so.
\<close>

lemma sender_id_update [simp]: "sender_id (update e t) = sender_id t"
  by (simp add: update_def)

lemma events_update [simp]: "events (update e t) = events t @ [e]"
  by (simp add: update_def)

lemma update_all_eq:
  "update_all t evs w =
     (foldl (\<lambda>t e. update e t) t evs, logs (map (TrackerUpdate (sender_id t)) evs) w)"
proof (induction evs arbitrary: t w)
  case Nil
  then show ?case by (simp add: logs_def)
next
  case (Cons e evs)
  then show ?case by (simp add: logs_def log_def)
qed

lemma sender_id_foldl_update [simp]:
  "sender_id (foldl (\<lambda>t e. update e t) t evs) = sender_id t"
  by (induction evs arbitrary: t) auto

lemma events_foldl_update [simp]:
  "events (foldl (\<lambda>t e. update e t) t evs) = events t @ evs"
  by (induction evs arbitrary: t) auto

lemma backend_store_eq:
  "backend_store cid evs w =
     (if faults w \<noteq> [] \<and> hd (faults w)
      then (Inl PersistenceError, w\<lparr>faults := tl (faults w)\<rparr>)
      else (Inr (), w\<lparr>persisted := (persisted w)(cid \<mapsto> evs), faults := tl (faults w)\<rparr>))"
  by (cases "faults w") (auto simp: backend_store_def next_fault_def)

lemma backend_load_eq:
  "backend_load cid w =
     (if faults w \<noteq> [] \<and> hd (faults w)
      then (Inl PersistenceError, w\<lparr>faults := tl (faults w)\<rparr>)
      else (Inr (persisted w cid), w\<lparr>faults := tl (faults w)\<rparr>))"
  by (cases "faults w") (auto simp: backend_load_def next_fault_def)

lemma save_eq:
  "save t w =
     (if faults w \<noteq> [] \<and> hd (faults w)
      then (Inl PersistenceError, w\<lparr>faults := tl (faults w)\<rparr>)
      else (Inr (), w\<lparr>persisted := (persisted w)(sender_id t \<mapsto> events t),
                       faults := tl (faults w)\<rparr>))"
  by (simp add: save_def backend_store_eq)

lemma sender_id_rehydrate [simp]: "sender_id (rehydrate cid evs) = cid"
  by (simp add: rehydrate_def new_tracker_def)

lemma events_rehydrate [simp]: "events (rehydrate cid evs) = evs"
  by (simp add: rehydrate_def new_tracker_def)

lemma rehydrate_Nil: "rehydrate cid [] = new_tracker cid"
  by (simp add: rehydrate_def)

subsection \<open>The runs of the handlers\<close>

text \<open>
  What \<^verbatim>\<open>append_events\<close>, \<^verbatim>\<open>update_tracker\<close> and \<^verbatim>\<open>retrieve_tracker\<close> return, by
  the stage at which the run ends.
\<close>

lemma append_events_convert_fails:
  assumes "loads env (content req) = Some p"
    and "convert_obj_2_tracker_events p (agent_domain env) = (Inl err, left, cs)"
  shows "append_events env req cid w =
           (raised err, w\<lparr>calls := calls w @ JsonLoads (content req) # cs\<rparr>)"
  using assms by (simp add: append_events_def Let_def logs_def log_def)

lemma update_tracker_convert_fails:
  assumes "loads env (content req) = Some p"
    and "convert_obj_2_tracker_events p (agent_domain env) = (Inl err, left, cs)"
  shows "update_tracker env req cid w =
           (raised err, w\<lparr>calls := calls w @ JsonLoads (content req) # cs\<rparr>)"
  using assms by (simp add: update_tracker_def Let_def logs_def log_def)

lemma update_tracker_constructed:
  assumes "loads env (content req) = Some p"
    and "convert_obj_2_tracker_events p (agent_domain env) = (Inr evs, left, cs)"
  shows "update_tracker env req cid w =
     (if faults w \<noteq> [] \<and> hd (faults w)
      then (raised PersistenceError,
            w\<lparr>faults := tl (faults w),
              calls := calls w @ JsonLoads (content req) # cs @ CreateTracker cid #
                       map (TrackerUpdate cid) evs @ [Save cid evs]\<rparr>)
      else (returned 200 (Dumps (current_state (rehydrate cid evs) True)),
            w\<lparr>persisted := (persisted w)(cid \<mapsto> evs), faults := tl (faults w),
              calls := calls w @ JsonLoads (content req) # cs @ CreateTracker cid #
                       map (TrackerUpdate cid) evs @ [Save cid evs, CurrentState cid True]\<rparr>))"
  using assms
  by (simp add: update_tracker_def Let_def logs_def log_def update_all_eq save_eq
      create_tracker_def rehydrate_def new_tracker_def)

lemma new_calls_app [simp]: "calls w' = calls w @ xs \<Longrightarrow> new_calls w w' = xs"
  by (simp add: new_calls_def)

lemma foldl_update_rehydrate:
  "foldl (\<lambda>t e. update e t) (rehydrate cid old) evs = rehydrate cid (old @ evs)"
  by (simp add: rehydrate_def)

lemma get_or_create_tracker_eq:
  "get_or_create_tracker cid w =
     (if faults w \<noteq> [] \<and> hd (faults w)
      then (Inl PersistenceError, w\<lparr>faults := tl (faults w)\<rparr>)
      else case persisted w cid of
             Some evs \<Rightarrow> (Inr (rehydrate cid evs), w\<lparr>faults := tl (faults w)\<rparr>)
           | None \<Rightarrow>
               (if tl (faults w) \<noteq> [] \<and> hd (tl (faults w))
                then (Inl PersistenceError, w\<lparr>faults := tl (tl (faults w))\<rparr>)
                else (Inr (rehydrate cid []),
                      w\<lparr>persisted := (persisted w)(cid \<mapsto> []),
                        faults := tl (tl (faults w))\<rparr>)))"
  by (auto simp: get_or_create_tracker_def backend_load_eq backend_store_eq rehydrate_Nil
      split: option.splits)

lemma append_events_constructed:
  assumes "loads env (content req) = Some p"
    and "convert_obj_2_tracker_events p (agent_domain env) = (Inr evs, left, cs)"
  shows "\<exists>r w'. append_events env req cid w = (r, w') \<and>
     ((r = raised PersistenceError \<and> persisted w' = persisted w \<and>
       calls w' = calls w @ JsonLoads (content req) # cs @ [GetOrCreateTracker cid]) \<or>
      (r = raised PersistenceError \<and>
       persisted w' = (persisted w)(cid \<mapsto> stored_events w cid) \<and>
       calls w' = calls w @ JsonLoads (content req) # cs @ GetOrCreateTracker cid #
                  map (TrackerUpdate cid) evs @ [Save cid (stored_events w cid @ evs)]) \<or>
      (r = returned 200 (Dumps (current_state (rehydrate cid (stored_events w cid @ evs))
                                  (default_include_events env))) \<and>
       persisted w' = (persisted w)(cid \<mapsto> stored_events w cid @ evs) \<and>
       calls w' = calls w @ JsonLoads (content req) # cs @ GetOrCreateTracker cid #
                  map (TrackerUpdate cid) evs @
                  [Save cid (stored_events w cid @ evs),
                   CurrentState cid (default_include_events env)]))"
  using assms
  by (auto simp: append_events_def Let_def logs_def log_def update_all_eq save_eq
      get_or_create_tracker_eq foldl_update_rehydrate stored_events_def
      split: option.splits)

lemma convert_batch_Inr:
  assumes "convert_obj_2_tracker_events (JArr es) d = (Inr evs, left, cs)"
  shows "left = JArr (map left_by_convert es) \<and>
         map Inr evs = map (construct d) (filter bears_event es) \<and>
         cs = map construct_call (filter bears_event es)"
proof -
  obtain r es' where l: "convert_loop d es [] = (r, es', cs)"
    using assms by (cases "convert_loop d es []") auto
  with assms have "r = Inr evs" and left: "left = JArr es'" by auto
  with l have "convert_loop d es [] = (Inr evs, es', cs)" by simp
  from convert_loop_Inr [OF this] left show ?thesis by auto
qed

lemma outcome_raised [simp]: "outcome (raised err) = Inl err"
  by (simp add: raised_def)

lemma outcome_returned [simp]: "outcome (returned c b) = Inr b"
  by (simp add: returned_def)

lemma snapshot_events_current_state:
  "snapshot_events (current_state t True) = Some (JArr (map as_dict (events t)))"
  by (simp add: current_state_def)

lemma update_tracker_loads_fails:
  "loads env (content req) = None \<Longrightarrow>
   update_tracker env req cid w = (raised ValueError, w\<lparr>calls := calls w @ [JsonLoads (content req)]\<rparr>)"
  by (simp add: update_tracker_def Let_def log_def)

lemma append_events_loads_fails:
  "loads env (content req) = None \<Longrightarrow>
   append_events env req cid w = (raised ValueError, w\<lparr>calls := calls w @ [JsonLoads (content req)]\<rparr>)"
  by (simp add: append_events_def Let_def log_def)

lemma update_tracker_commit:
  "persisted (snd (update_tracker env req cid w)) = persisted w \<or>
   (\<exists>evs. persisted (snd (update_tracker env req cid w)) = (persisted w)(cid \<mapsto> evs) \<and>
          Save cid evs \<in> set (new_calls w (snd (update_tracker env req cid w))) \<and>
          succeeded (fst (update_tracker env req cid w)))"
proof (cases "loads env (content req)")
  case None
  then show ?thesis by (simp add: update_tracker_loads_fails)
next
  case (Some p)
  obtain r left cs where c: "convert_obj_2_tracker_events p (agent_domain env) = (r, left, cs)"
    by (cases "convert_obj_2_tracker_events p (agent_domain env)") auto
  show ?thesis
  proof (cases r)
    case (Inl err)
    with Some c show ?thesis by (simp add: update_tracker_convert_fails)
  next
    case (Inr evs)
    with Some c show ?thesis
      by (auto simp: update_tracker_constructed succeeded_def)
  qed
qed

lemma retrieve_tracker_cases:
  "\<exists>r w'. retrieve_tracker env req cid w = (r, w') \<and>
     ((r = raised PersistenceError \<and> persisted w' = persisted w \<and>
       calls w' = calls w @ [GetOrCreateTracker cid]) \<or>
      (r = returned 200 (Dumps (current_state (rehydrate cid (stored_events w cid)) True)) \<and>
       persisted w' = (persisted w)(cid \<mapsto> stored_events w cid) \<and>
       calls w' = calls w @ [GetOrCreateTracker cid, CurrentState cid True]))"
  by (auto simp: retrieve_tracker_def get_or_create_tracker_eq log_def stored_events_def
      split: option.splits)

subsection \<open>Call logs\<close>

lemma stage_constructs:
  "list_all is_construct cs \<Longrightarrow> map stage cs = replicate (length cs) 1"
proof (induction cs)
  case Nil
  then show ?case by simp
next
  case (Cons c cs)
  then show ?case by (cases c) auto
qed

lemma convert_calls:
  "convert_obj_2_tracker_events p d = (r, left, cs) \<Longrightarrow> list_all is_construct cs"
proof (cases p)
  case (JArr es)
  assume c: "convert_obj_2_tracker_events p d = (r, left, cs)"
  with JArr obtain es' where "convert_loop d es [] = (r, es', cs)"
    by (cases "convert_loop d es []") auto
  then show ?thesis by (rule convert_loop_calls)
qed (auto split: if_splits)

lemma sorted_pipeline_prefix:
  assumes "list_all is_construct cs"
  shows "sorted (map stage (JsonLoads s # cs))"
    and "sorted (map stage (JsonLoads s # cs @ [GetOrCreateTracker cid]))"
    and "sorted (map stage (JsonLoads s # cs @ GetOrCreateTracker cid #
           map (TrackerUpdate cid) evs @ [Save cid l]))"
    and "sorted (map stage (JsonLoads s # cs @ GetOrCreateTracker cid #
           map (TrackerUpdate cid) evs @ [Save cid l, CurrentState cid b]))"
    and "sorted (map stage (JsonLoads s # cs @ CreateTracker cid #
           map (TrackerUpdate cid) evs @ [Save cid l]))"
    and "sorted (map stage (JsonLoads s # cs @ CreateTracker cid #
           map (TrackerUpdate cid) evs @ [Save cid l, CurrentState cid b]))"
  using stage_constructs [OF assms]
  by (auto simp: sorted_append comp_def map_replicate_const)

lemma applied_append [simp]: "applied (xs @ ys) = applied xs @ applied ys"
  by (induction xs rule: applied.induct) auto

lemma applied_updates [simp]: "applied (map (TrackerUpdate cid) evs) = evs"
  by (induction evs) auto

lemma filter_updates [simp]:
  "filter is_update (map (TrackerUpdate cid) evs) = map (TrackerUpdate cid) evs"
  "filter is_construct (map (TrackerUpdate cid) evs) = []"
  by (induction evs) auto


subsection \<open>Request parameters of \<^verbatim>\<open>parse\<close>\<close>

lemma parse_params_world:
  "parse_params env req w = (r, w1) \<Longrightarrow>
   persisted w1 = persisted w \<and> faults w1 = faults w \<and>
   (calls w1 = calls w \<or> calls w1 = calls w @ [JsonLoads (content req)])"
  by (auto simp: parse_params_def log_def split: if_splits sum.splits option.splits)

lemma select_message_query:
  assumes "map_of kvs ''query'' = Some m"
  shows "select_message (JObj kvs) = Inr (Some m)"
proof -
  from assms have "''query'' \<in> fst ` set kvs"
    using map_of_eq_None_iff [of kvs "''query''"] by auto
  with assms show ?thesis by (simp add: select_message_def)
qed

lemma select_message_neither:
  "map_of kvs ''query'' = None \<Longrightarrow> map_of kvs ''q'' = None \<Longrightarrow>
   select_message (JObj kvs) = Inr None"
  by (auto simp: select_message_def map_of_eq_None_iff)

subsection \<open>Batches with an unknown kind\<close>

lemma accepted_prefix:
  "list_all (accepted d) pre \<Longrightarrow> \<exists>evs pre' cs. convert_loop d pre acc = (Inr evs, pre', cs)"
proof (induction pre arbitrary: acc)
  case Nil
  then show ?case by simp
next
  case (Cons m pre)
  from Cons.prems have m: "is_mapping m" by (simp add: accepted_def)
  from Cons.prems have rest: "list_all (accepted d) pre" by simp
  show ?case
  proof (cases "bears_event m")
    case False
    with m Cons.IH [OF rest, of acc] show ?thesis
      by (auto simp: convert_step_skip)
  next
    case True
    with Cons.prems obtain ev where "construct d m = Inr ev"
      by (auto simp: accepted_def split: sum.splits)
    with m True Cons.IH [OF rest, of "acc @ [ev]"] show ?thesis
      by (auto simp: convert_step_bears)
  qed
qed

lemma batch_rejected:
  assumes "event_kind m = Some k" and "k \<noteq> JNull" and "\<not> known_kind k"
  shows "\<exists>err left cs.
           convert_obj_2_tracker_events (JArr (pre @ m # post)) d = (Inl err, left, cs) \<and>
           list_all is_construct cs \<and>
           (list_all (accepted d) pre \<longrightarrow> err = UnknownEventKind)"
proof -
  from assms have b: "bears_event m" by (cases k) (auto simp: bears_event_def)
  have "m \<in> set (pre @ m # post)" by simp
  from convert_loop_rejects [OF this b assms(1,3), of d "[]"]
  obtain err es' cs where l: "convert_loop d (pre @ m # post) [] = (Inl err, es', cs)" by blast
  then have cs: "list_all is_construct cs" by (rule convert_loop_calls)
  have "err = UnknownEventKind" if "list_all (accepted d) pre"
  proof -
    from accepted_prefix [OF that, of "[]"] obtain evs pre' cs'
      where "convert_loop d pre [] = (Inr evs, pre', cs')" by blast
    from convert_loop_unknown [OF this b assms(1,3), of post] l show ?thesis by simp
  qed
  with l cs show ?thesis by simp
qed

text \<open>
  A loop that raises has accepted the elements before the one that raised, treated them
  and that one as \<open>left_by_convert\<close> says, and left the rest untouched.
\<close>

lemma accepted_iff: "accepted d m \<longleftrightarrow> step_error d m = None"
  by (auto simp: accepted_def step_error_def split: sum.splits)

lemma convert_step_raises:
  "step_error d m = Some err \<Longrightarrow>
   convert_step d m =
     (Inl err, left_by_convert m, map construct_call (filter bears_event [m]))"
proof (cases "is_mapping m")
  case False
  assume "step_error d m = Some err"
  with False have "err = AttributeError" by (simp add: step_error_def)
  moreover from False have "\<not> bears_event m" by (cases m) (auto simp: bears_event_def)
  ultimately show ?thesis using False
    by (simp add: convert_step_not_mapping left_by_convert_def)
next
  case True
  assume s: "step_error d m = Some err"
  with True have b: "bears_event m" and c: "construct d m = Inl err"
    by (auto simp: step_error_def split: if_splits sum.splits)
  with convert_step_bears [OF True b, of d] show ?thesis
    by (simp add: left_by_convert_def)
qed

lemma convert_step_passes:
  "step_error d m = None \<Longrightarrow> \<exists>r. convert_step d m =
     (Inr r, left_by_convert m, map construct_call (filter bears_event [m]))"
proof -
  assume s: "step_error d m = None"
  then have m: "is_mapping m" by (auto simp: step_error_def split: if_splits)
  show ?thesis
  proof (cases "bears_event m")
    case False
    with m show ?thesis by (simp add: convert_step_skip left_by_convert_def)
  next
    case True
    with s m obtain ev where "construct d m = Inr ev"
      by (auto simp: step_error_def split: sum.splits)
    with convert_step_bears [OF m True, of d] True show ?thesis
      by (simp add: left_by_convert_def)
  qed
qed

lemma convert_loop_Inl:
  "convert_loop d es acc = (Inl err, es', cs) \<Longrightarrow>
   \<exists>good bad rest.
     es = good @ bad # rest \<and> list_all (accepted d) good \<and> step_error d bad = Some err \<and>
     es' = map left_by_convert good @ left_by_convert bad # rest \<and>
     cs = map construct_call (filter bears_event (good @ [bad]))"
proof (induction es arbitrary: acc es' cs)
  case Nil
  then show ?case by simp
next
  case (Cons e es)
  show ?case
  proof (cases "step_error d e")
    case (Some err')
    from convert_step_raises [OF Some] Cons.prems
    have "err' = err" and "es' = left_by_convert e # es"
      and "cs = map construct_call (filter bears_event [e])" by auto
    with Some have "e # es = [] @ e # es \<and> list_all (accepted d) [] \<and>
        step_error d e = Some err \<and>
        es' = map left_by_convert [] @ left_by_convert e # es \<and>
        cs = map construct_call (filter bears_event ([] @ [e]))" by simp
    then show ?thesis by blast
  next
    case None
    from convert_step_passes [OF None] obtain r where
      s: "convert_step d e = (Inr r, left_by_convert e, map construct_call (filter bears_event [e]))"
      by blast
    obtain r2 e2 c2 where
      l: "convert_loop d es (acc @ (case r of None \<Rightarrow> [] | Some ev \<Rightarrow> [ev])) = (r2, e2, c2)"
      by (cases "convert_loop d es (acc @ (case r of None \<Rightarrow> [] | Some ev \<Rightarrow> [ev]))") auto
    with Cons.prems s have eq: "r2 = Inl err" "es' = left_by_convert e # e2"
      "cs = map construct_call (filter bears_event [e]) @ c2" by auto
    from Cons.IH [OF l [unfolded eq(1)]] obtain good bad rest where
      g: "es = good @ bad # rest" "list_all (accepted d) good" "step_error d bad = Some err"
         "e2 = map left_by_convert good @ left_by_convert bad # rest"
         "c2 = map construct_call (filter bears_event (good @ [bad]))" by blast
    from g eq None have "e # es = (e # good) @ bad # rest \<and> list_all (accepted d) (e # good) \<and>
        step_error d bad = Some err \<and>
        es' = map left_by_convert (e # good) @ left_by_convert bad # rest \<and>
        cs = map construct_call (filter bears_event ((e # good) @ [bad]))"
      by (simp add: accepted_iff)
    then show ?thesis by blast
  qed
qed

lemma convert_batch_Inl:
  assumes "convert_obj_2_tracker_events (JArr es) d = (Inl err, left, cs)"
  shows "\<exists>good bad rest.
     es = good @ bad # rest \<and> list_all (accepted d) good \<and> step_error d bad = Some err \<and>
     left = JArr (map left_by_convert good @ left_by_convert bad # rest) \<and>
     cs = map construct_call (filter bears_event (good @ [bad]))"
proof -
  obtain r es' where l: "convert_loop d es [] = (r, es', cs)"
    using assms by (cases "convert_loop d es []") auto
  with assms have "r = Inl err" and left: "left = JArr es'" by auto
  with l have "convert_loop d es [] = (Inl err, es', cs)" by simp
  from convert_loop_Inl [OF this] left show ?thesis by blast
qed

lemma first_of_two:
  assumes "[a] @ b # [] = good @ bad # rest" and "list_all P good" and "\<not> P a"
  shows "bad = a"
  using assms by (cases good) auto

subsection \<open>Other conversations\<close>

lemma append_events_frame:
  "c \<noteq> cid \<Longrightarrow> persisted (snd (append_events env req cid w)) c = persisted w c"
proof (cases "loads env (content req)")
  case None
  then show ?thesis by (simp add: append_events_loads_fails)
next
  case (Some p)
  assume ne: "c \<noteq> cid"
  obtain r left cs where cv: "convert_obj_2_tracker_events p (agent_domain env) = (r, left, cs)"
    by (cases "convert_obj_2_tracker_events p (agent_domain env)") auto
  show ?thesis
  proof (cases r)
    case (Inl err)
    with Some cv show ?thesis by (simp add: append_events_convert_fails)
  next
    case (Inr evs)
    from append_events_constructed [OF Some cv [unfolded Inr], of cid w] ne
    show ?thesis by auto
  qed
qed

lemma update_tracker_frame:
  "c \<noteq> cid \<Longrightarrow> persisted (snd (update_tracker env req cid w)) c = persisted w c"
  using update_tracker_commit [of env req cid w] by auto

lemma retrieve_tracker_frame:
  "c \<noteq> cid \<Longrightarrow> persisted (snd (retrieve_tracker env req cid w)) c = persisted w c"
  using retrieve_tracker_cases [of env req cid w] by auto

lemma parse_frame:
  assumes "agent_scoped env" and "c \<noteq> cid"
  shows "persisted (snd (parse env req cid w)) c = persisted w c"
proof -
  obtain r w1 where pp: "parse_params env req w = (r, w1)"
    by (cases "parse_params env req w") auto
  from parse_params_world [OF pp] have p1: "persisted w1 = persisted w" by simp
  have sc: "persisted (snd (start_message_handling env m cid (log (StartMessageHandling m cid) w1))) c
              = persisted w c" for m
    using assms p1 by (simp add: agent_scoped_def log_def)
  show ?thesis
  proof (cases r)
    case (Inl err)
    with pp p1 show ?thesis by (simp add: parse_def)
  next
    case (Inr p)
    show ?thesis
    proof (cases "select_message p")
      case (Inl err)
      with pp p1 Inr show ?thesis by (simp add: parse_def)
    next
      case sm: (Inr mo)
      show ?thesis
      proof (cases mo)
        case None
        with pp p1 Inr sm show ?thesis by (simp add: parse_def)
      next
        case (Some m)
        with pp Inr sm sc [of m] show ?thesis
          by (auto simp: parse_def split: prod.splits sum.splits)
      qed
    qed
  qed
qed

lemma continue_predicting_frame:
  assumes "agent_scoped env" and "c \<noteq> cid"
  shows "persisted (snd (continue_predicting env req cid w)) c = persisted w c"
proof -
  have sc: "persisted w2 c = persisted w0 c"
    if "continue_message_handling env cid a evs w0 = (r, w2)" for a evs w0 r w2
  proof -
    from assms have "persisted (snd (continue_message_handling env cid a evs w0)) c = persisted w0 c"
      by (simp add: agent_scoped_def)
    with that show ?thesis by simp
  qed
  show ?thesis
    by (auto simp: continue_predicting_def Let_def log_def logs_def
        split: option.splits json.splits prod.splits sum.splits dest!: sc)
qed

subsection \<open>The tracker model on the specification's scenarios\<close>

text \<open>
  Section 8 of the specification: a slot set on an empty tracker; an executed action and
  then a slot set; incremental update against replay from scratch.
\<close>

lemma scenario_set_slot:
  "slots (current (update (SlotSet ''x'' (JNum 1)) (new_tracker cid))) = [(''x'', JNum 1)] \<and>
   turn_count (current (update (SlotSet ''x'' (JNum 1)) (new_tracker cid))) = 0"
  by (simp add: update_def new_tracker_def empty_projection_def)

lemma scenario_action_then_slot:
  "latest_action (current (update (SlotSet ''x'' (JNum 2))
      (update (ActionExecuted ''utter_greet'') (new_tracker cid)))) = Some ''utter_greet'' \<and>
   slots (current (update (SlotSet ''x'' (JNum 2))
      (update (ActionExecuted ''utter_greet'') (new_tracker cid)))) = [(''x'', JNum 2)] \<and>
   turn_count (current (update (SlotSet ''x'' (JNum 2))
      (update (ActionExecuted ''utter_greet'') (new_tracker cid)))) = 1"
  by (simp add: update_def new_tracker_def empty_projection_def)

lemma rehydrate_snoc: "rehydrate cid (evs @ [e]) = update e (rehydrate cid evs)"
  by (simp add: rehydrate_def)

subsection \<open>Unfolding the model on the example inputs\<close>

lemmas example_defs =
  example_env_def example_request_def example_world_def example_domain_def example_batch_def

lemmas run_defs =
  append_events_def update_tracker_def retrieve_tracker_def continue_predicting_def
  parse_def parse_params_def select_message_def
  get_or_create_tracker_def backend_load_def backend_store_def next_fault_def save_def
  create_tracker_def new_tracker_def rehydrate_def update_def update_all_eq
  log_def logs_def Let_def raised_def returned_def succeeded_def new_calls_def
  from_parameters_def slot_exists_def action_exists_def known_kinds_def
  AList.delete_eq stored_events_def

section \<open>The conversion of a serialized batch\<close>

text \<open>
  C9, as amended. \<^verbatim>\<open>convert_obj_2_tracker_events\<close> mutates its input. When the call on
  a batch returns, every mapping whose \<^verbatim>\<open>event\<close> key is present with a value other
  than \<^verbatim>\<open>None\<close> has had that key deleted in place, and the remaining keys were the
  construction parameters; every mapping whose \<^verbatim>\<open>event\<close> key is absent or
  \<^verbatim>\<open>None\<close> is left as it was and contributes no event: the result holds, in order,
  exactly the events constructed from the mappings that bear one. When the call raises,
  this holds of the elements up to and including the first one that raises, whose error is
  the one raised, and every element after it is left as it was.
\<close>

theorem convert_mutation_by_outcome:
  assumes "convert_obj_2_tracker_events (JArr es) d = (r, left, cs)"
  shows "(\<forall>evs. r = Inr evs \<longrightarrow>
            left = JArr (map left_by_convert es) \<and>
            map Inr evs = map (construct d) (filter bears_event es) \<and>
            cs = map construct_call (filter bears_event es)) \<and>
         (\<forall>err. r = Inl err \<longrightarrow>
            (\<exists>good bad rest.
               es = good @ bad # rest \<and> list_all (accepted d) good \<and>
               step_error d bad = Some err \<and>
               left = JArr (map left_by_convert good @ left_by_convert bad # rest) \<and>
               cs = map construct_call (filter bears_event (good @ [bad])))) \<and>
         (\<forall>e. JObj e \<in> set es \<longrightarrow>
            left_by_convert (JObj e) =
              (if map_of e ''event'' = None \<or> map_of e ''event'' = Some JNull
               then JObj e else JObj (AList.delete ''event'' e)))"
proof -
  have 1: "\<forall>evs. r = Inr evs \<longrightarrow>
            left = JArr (map left_by_convert es) \<and>
            map Inr evs = map (construct d) (filter bears_event es) \<and>
            cs = map construct_call (filter bears_event es)"
    using assms convert_batch_Inr [of es d _ left cs] by blast
  have 2: "\<forall>err. r = Inl err \<longrightarrow>
            (\<exists>good bad rest.
               es = good @ bad # rest \<and> list_all (accepted d) good \<and>
               step_error d bad = Some err \<and>
               left = JArr (map left_by_convert good @ left_by_convert bad # rest) \<and>
               cs = map construct_call (filter bears_event (good @ [bad])))"
    using assms convert_batch_Inl [of es d _ left cs] by blast
  have 3: "\<forall>e. JObj e \<in> set es \<longrightarrow>
      left_by_convert (JObj e) =
        (if map_of e ''event'' = None \<or> map_of e ''event'' = Some JNull
         then JObj e else JObj (AList.delete ''event'' e))"
    by (auto simp: left_by_convert_def bears_event_def split: option.splits json.splits)
  from 1 2 3 show ?thesis by blast
qed

theorem convert_mutation_by_outcome_witness:
  "convert_obj_2_tracker_events
     (JArr [JObj [(''event'', JStr ''set_slot''), (''name'', JStr ''x''), (''value'', JNum 1)],
            JObj [(''name'', JStr ''y'')],
            JObj [(''event'', JNull), (''name'', JStr ''z'')]])
     example_domain
   = (Inr [SlotSet ''x'' (JNum 1)],
      JArr [JObj [(''name'', JStr ''x''), (''value'', JNum 1)],
            JObj [(''name'', JStr ''y'')],
            JObj [(''event'', JNull), (''name'', JStr ''z'')]],
      [FromParameters (JStr ''set_slot'') [(''name'', JStr ''x''), (''value'', JNum 1)]])
   \<and> JArr [JObj [(''name'', JStr ''x''), (''value'', JNum 1)],
            JObj [(''name'', JStr ''y'')],
            JObj [(''event'', JNull), (''name'', JStr ''z'')]]
     = JArr (map left_by_convert
         [JObj [(''event'', JStr ''set_slot''), (''name'', JStr ''x''), (''value'', JNum 1)],
          JObj [(''name'', JStr ''y'')],
          JObj [(''event'', JNull), (''name'', JStr ''z'')]])
   \<and> convert_obj_2_tracker_events
     (JArr [JObj [(''event'', JStr ''restarted'')],
            JObj [(''event'', JStr ''bogus''), (''name'', JStr ''x'')],
            JObj [(''event'', JStr ''restarted''), (''k'', JNum 1)]])
     example_domain
   = (Inl UnknownEventKind,
      JArr [JObj [], JObj [(''name'', JStr ''x'')],
            JObj [(''event'', JStr ''restarted''), (''k'', JNum 1)]],
      [FromParameters (JStr ''restarted'') [],
       FromParameters (JStr ''bogus'') [(''name'', JStr ''x'')]])
   \<and> (\<exists>good bad rest.
         [JObj [(''event'', JStr ''restarted'')],
          JObj [(''event'', JStr ''bogus''), (''name'', JStr ''x'')],
          JObj [(''event'', JStr ''restarted''), (''k'', JNum 1)]] = good @ bad # rest \<and>
         list_all (accepted example_domain) good \<and>
         step_error example_domain bad = Some UnknownEventKind \<and>
         JArr [JObj [], JObj [(''name'', JStr ''x'')],
               JObj [(''event'', JStr ''restarted''), (''k'', JNum 1)]] =
           JArr (map left_by_convert good @ left_by_convert bad # rest))"
proof -
  have h1: "convert_obj_2_tracker_events
     (JArr [JObj [(''event'', JStr ''set_slot''), (''name'', JStr ''x''), (''value'', JNum 1)],
            JObj [(''name'', JStr ''y'')],
            JObj [(''event'', JNull), (''name'', JStr ''z'')]])
     example_domain
   = (Inr [SlotSet ''x'' (JNum 1)],
      JArr [JObj [(''name'', JStr ''x''), (''value'', JNum 1)],
            JObj [(''name'', JStr ''y'')],
            JObj [(''event'', JNull), (''name'', JStr ''z'')]],
      [FromParameters (JStr ''set_slot'') [(''name'', JStr ''x''), (''value'', JNum 1)]])"
    by (simp add: from_parameters_def slot_exists_def example_domain_def AList.delete_eq Let_def)
  have h2: "convert_obj_2_tracker_events
     (JArr [JObj [(''event'', JStr ''restarted'')],
            JObj [(''event'', JStr ''bogus''), (''name'', JStr ''x'')],
            JObj [(''event'', JStr ''restarted''), (''k'', JNum 1)]])
     example_domain
   = (Inl UnknownEventKind,
      JArr [JObj [], JObj [(''name'', JStr ''x'')],
            JObj [(''event'', JStr ''restarted''), (''k'', JNum 1)]],
      [FromParameters (JStr ''restarted'') [],
       FromParameters (JStr ''bogus'') [(''name'', JStr ''x'')]])"
    by (simp add: from_parameters_def AList.delete_eq Let_def)
  from convert_mutation_by_outcome [OF h1] h1
  have a: "JArr [JObj [(''name'', JStr ''x''), (''value'', JNum 1)],
            JObj [(''name'', JStr ''y'')],
            JObj [(''event'', JNull), (''name'', JStr ''z'')]]
     = JArr (map left_by_convert
         [JObj [(''event'', JStr ''set_slot''), (''name'', JStr ''x''), (''value'', JNum 1)],
          JObj [(''name'', JStr ''y'')],
          JObj [(''event'', JNull), (''name'', JStr ''z'')]])"
    by blast
  from convert_mutation_by_outcome [OF h2]
  have b: "\<exists>good bad rest.
         [JObj [(''event'', JStr ''restarted'')],
          JObj [(''event'', JStr ''bogus''), (''name'', JStr ''x'')],
          JObj [(''event'', JStr ''restarted''), (''k'', JNum 1)]] = good @ bad # rest \<and>
         list_all (accepted example_domain) good \<and>
         step_error example_domain bad = Some UnknownEventKind \<and>
         JArr [JObj [], JObj [(''name'', JStr ''x'')],
               JObj [(''event'', JStr ''restarted''), (''k'', JNum 1)]] =
           JArr (map left_by_convert good @ left_by_convert bad # rest)"
    by blast
  from h1 a h2 b show ?thesis by blast
qed

text \<open>
  The claim as first stated, for every batch and each of its mappings, fails when the call
  raises: the mapping after the one that raised bears an event and keeps its key.
\<close>

theorem convert_mutation_counterexample:
  "bears_event (JObj [(''event'', JStr ''restarted''), (''k'', JNum 1)]) \<and>
   left_by_convert (JObj [(''event'', JStr ''restarted''), (''k'', JNum 1)]) =
     JObj [(''k'', JNum 1)] \<and>
   convert_obj_2_tracker_events
     (JArr [JObj [(''event'', JStr ''bogus'')],
            JObj [(''event'', JStr ''restarted''), (''k'', JNum 1)]])
     example_domain
   = (Inl UnknownEventKind,
      JArr [JObj [], JObj [(''event'', JStr ''restarted''), (''k'', JNum 1)]],
      [FromParameters (JStr ''bogus'') []]) \<and>
   convert_obj_2_tracker_events
     (JArr [JNum 5, JObj [(''event'', JStr ''restarted''), (''k'', JNum 1)]])
     example_domain
   = (Inl AttributeError,
      JArr [JNum 5, JObj [(''event'', JStr ''restarted''), (''k'', JNum 1)]], [])"
  by (simp add: from_parameters_def AList.delete_eq Let_def bears_event_def left_by_convert_def)

section \<open>Order of application\<close>



section \<open>Replacing a tracker\<close>

text \<open>
  C3. A \<^verbatim>\<open>PUT\<close> of a batch whose events can be constructed makes a fresh empty tracker
  for the id, whatever is persisted for it, applies the events in order and calls
  \<^verbatim>\<open>save\<close>. If the save succeeds the persisted log of the id is exactly the batch's
  events and the reply is the state of the tracker rebuilt from them, with events; if it
  fails, the durable state is as before. The durable state changes only through the save.
\<close>

theorem put_replaces_tracker:
  assumes "loads env (content req) = Some p"
    and "convert_obj_2_tracker_events p (agent_domain env) = (Inr evs, left, cs)"
  shows "update_tracker env req cid w =
     (if faults w \<noteq> [] \<and> hd (faults w)
      then (raised PersistenceError,
            w\<lparr>faults := tl (faults w),
              calls := calls w @ JsonLoads (content req) # cs @ CreateTracker cid #
                       map (TrackerUpdate cid) evs @ [Save cid evs]\<rparr>)
      else (returned 200 (Dumps (current_state (rehydrate cid evs) True)),
            w\<lparr>persisted := (persisted w)(cid \<mapsto> evs), faults := tl (faults w),
              calls := calls w @ JsonLoads (content req) # cs @ CreateTracker cid #
                       map (TrackerUpdate cid) evs @ [Save cid evs, CurrentState cid True]\<rparr>))
     \<and> rehydrate cid evs = foldl (\<lambda>t e. update e t) (new_tracker cid) evs
     \<and> (persisted (snd (update_tracker env req cid w)) = persisted w \<or>
        succeeded (fst (update_tracker env req cid w)) \<and>
        Save cid evs \<in> set (new_calls w (snd (update_tracker env req cid w))))"
  using update_tracker_constructed [OF assms] by (simp add: rehydrate_def succeeded_def)

theorem put_replaces_tracker_witness:
  "loads (example_env [(''b'', example_batch)]) (content (example_request ''b'')) =
     Some example_batch \<and>
   convert_obj_2_tracker_events example_batch
       (agent_domain (example_env [(''b'', example_batch)])) =
     (Inr [ActionExecuted ''utter_greet'', SlotSet ''x'' (JNum 2)],
      JArr [JObj [(''action_name'', JStr ''utter_greet'')],
            JObj [(''note'', JStr ''no event key'')],
            JObj [(''name'', JStr ''x''), (''value'', JNum 2)]],
      [FromParameters (JStr ''action_executed'') [(''action_name'', JStr ''utter_greet'')],
       FromParameters (JStr ''set_slot'') [(''name'', JStr ''x''), (''value'', JNum 2)]]) \<and>
   persisted example_world ''c'' = Some [Restarted] \<and>
   persisted (snd (update_tracker (example_env [(''b'', example_batch)]) (example_request ''b'')
                     ''c'' example_world)) ''c'' =
     Some [ActionExecuted ''utter_greet'', SlotSet ''x'' (JNum 2)] \<and>
   fst (update_tracker (example_env [(''b'', example_batch)]) (example_request ''b'')
          ''c'' example_world) =
     returned 200 (Dumps (current_state
        (rehydrate ''c'' [ActionExecuted ''utter_greet'', SlotSet ''x'' (JNum 2)]) True))"
proof -
  have h1: "loads (example_env [(''b'', example_batch)]) (content (example_request ''b'')) =
     Some example_batch"
    by (simp add: example_env_def example_request_def)
  have h2: "convert_obj_2_tracker_events example_batch
       (agent_domain (example_env [(''b'', example_batch)])) =
     (Inr [ActionExecuted ''utter_greet'', SlotSet ''x'' (JNum 2)],
      JArr [JObj [(''action_name'', JStr ''utter_greet'')],
            JObj [(''note'', JStr ''no event key'')],
            JObj [(''name'', JStr ''x''), (''value'', JNum 2)]],
      [FromParameters (JStr ''action_executed'') [(''action_name'', JStr ''utter_greet'')],
       FromParameters (JStr ''set_slot'') [(''name'', JStr ''x''), (''value'', JNum 2)]])"
    by (simp add: example_defs run_defs)
  have h3: "persisted example_world ''c'' = Some [Restarted]"
    by (simp add: example_world_def)
  have f: "faults example_world = []" by (simp add: example_world_def)
  from put_replaces_tracker [OF h1 h2, where cid = "''c''" and w = example_world] f
  have "update_tracker (example_env [(''b'', example_batch)]) (example_request ''b'')
          ''c'' example_world =
     (returned 200 (Dumps (current_state
        (rehydrate ''c'' [ActionExecuted ''utter_greet'', SlotSet ''x'' (JNum 2)]) True)),
      example_world\<lparr>persisted := (persisted example_world)
           (''c'' \<mapsto> [ActionExecuted ''utter_greet'', SlotSet ''x'' (JNum 2)]),
         faults := tl (faults example_world),
         calls := calls example_world @ JsonLoads (content (example_request ''b'')) #
           [FromParameters (JStr ''action_executed'') [(''action_name'', JStr ''utter_greet'')],
            FromParameters (JStr ''set_slot'') [(''name'', JStr ''x''), (''value'', JNum 2)]] @
           CreateTracker ''c'' #
           map (TrackerUpdate ''c'') [ActionExecuted ''utter_greet'', SlotSet ''x'' (JNum 2)] @
           [Save ''c'' [ActionExecuted ''utter_greet'', SlotSet ''x'' (JNum 2)],
            CurrentState ''c'' True]\<rparr>)"
    by simp
  with h1 h2 h3 show ?thesis by simp
qed

section \<open>The pipeline of an append\<close>

text \<open>
  C4. A \<^verbatim>\<open>POST\<close> to the events endpoint that succeeds has gone through the pipeline in
  this order: the payload is deserialized, the events are constructed, the tracker of the
  id is fetched or created, each event is applied, the tracker is saved (the persisted log
  is the old one followed by the new events), and the reply is the serialized current
  state of that tracker.
\<close>

theorem append_events_pipeline:
  assumes "append_events env req cid w = (r, w')" and "outcome r = Inr b"
  shows "\<exists>p evs left cs.
           loads env (content req) = Some p \<and>
           convert_obj_2_tracker_events p (agent_domain env) = (Inr evs, left, cs) \<and>
           list_all is_construct cs \<and>
           calls w' = calls w @ JsonLoads (content req) # cs @ GetOrCreateTracker cid #
                      map (TrackerUpdate cid) evs @
                      [Save cid (stored_events w cid @ evs),
                       CurrentState cid (default_include_events env)] \<and>
           persisted w' = (persisted w)(cid \<mapsto> stored_events w cid @ evs) \<and>
           b = Dumps (current_state (rehydrate cid (stored_events w cid @ evs))
                        (default_include_events env))"
proof (cases "loads env (content req)")
  case None
  with assms show ?thesis by (auto simp: append_events_loads_fails)
next
  case (Some p)
  obtain r0 left cs where c: "convert_obj_2_tracker_events p (agent_domain env) = (r0, left, cs)"
    by (cases "convert_obj_2_tracker_events p (agent_domain env)") auto
  show ?thesis
  proof (cases r0)
    case (Inl err)
    with Some c assms show ?thesis by (auto simp: append_events_convert_fails)
  next
    case (Inr evs)
    have cs: "list_all is_construct cs"
    proof (cases p)
      case (JArr es)
      with c obtain es' where "convert_loop (agent_domain env) es [] = (r0, es', cs)"
        by (cases "convert_loop (agent_domain env) es []") auto
      then show ?thesis by (rule convert_loop_calls)
    qed (use c in \<open>auto split: if_splits\<close>)
    from append_events_constructed [OF Some c [unfolded Inr], of cid w] assms cs Some c Inr
    show ?thesis by auto
  qed
qed

theorem append_events_pipeline_witness:
  "outcome (fst (append_events (example_env [(''b'', example_batch)]) (example_request ''b'')
                   ''c'' example_world)) =
     Inr (Dumps (current_state
        (rehydrate ''c'' [Restarted, ActionExecuted ''utter_greet'', SlotSet ''x'' (JNum 2)])
        False)) \<and>
   calls (snd (append_events (example_env [(''b'', example_batch)]) (example_request ''b'')
                 ''c'' example_world)) =
     [JsonLoads ''b'',
      FromParameters (JStr ''action_executed'') [(''action_name'', JStr ''utter_greet'')],
      FromParameters (JStr ''set_slot'') [(''name'', JStr ''x''), (''value'', JNum 2)],
      GetOrCreateTracker ''c'',
      TrackerUpdate ''c'' (ActionExecuted ''utter_greet''),
      TrackerUpdate ''c'' (SlotSet ''x'' (JNum 2)),
      Save ''c'' [Restarted, ActionExecuted ''utter_greet'', SlotSet ''x'' (JNum 2)],
      CurrentState ''c'' False] \<and>
   persisted (snd (append_events (example_env [(''b'', example_batch)]) (example_request ''b'')
                     ''c'' example_world)) ''c'' =
     Some [Restarted, ActionExecuted ''utter_greet'', SlotSet ''x'' (JNum 2)]"
proof -
  have h1: "append_events (example_env [(''b'', example_batch)]) (example_request ''b'')
              ''c'' example_world =
            (fst (append_events (example_env [(''b'', example_batch)]) (example_request ''b'')
                   ''c'' example_world),
             snd (append_events (example_env [(''b'', example_batch)]) (example_request ''b'')
                   ''c'' example_world))"
    by simp
  have h2: "outcome (fst (append_events (example_env [(''b'', example_batch)])
                            (example_request ''b'') ''c'' example_world)) =
     Inr (Dumps (current_state
        (rehydrate ''c'' [Restarted, ActionExecuted ''utter_greet'', SlotSet ''x'' (JNum 2)])
        False))"
    by (simp add: example_defs run_defs)
  have l: "loads (example_env [(''b'', example_batch)]) (content (example_request ''b'')) =
     Some example_batch"
    by (simp add: example_env_def example_request_def)
  have c: "convert_obj_2_tracker_events example_batch
       (agent_domain (example_env [(''b'', example_batch)])) =
     (Inr [ActionExecuted ''utter_greet'', SlotSet ''x'' (JNum 2)],
      JArr [JObj [(''action_name'', JStr ''utter_greet'')],
            JObj [(''note'', JStr ''no event key'')],
            JObj [(''name'', JStr ''x''), (''value'', JNum 2)]],
      [FromParameters (JStr ''action_executed'') [(''action_name'', JStr ''utter_greet'')],
       FromParameters (JStr ''set_slot'') [(''name'', JStr ''x''), (''value'', JNum 2)]])"
    by (simp add: example_defs run_defs)
  have st: "stored_events example_world ''c'' = [Restarted]"
    and d: "default_include_events (example_env [(''b'', example_batch)]) = False"
    and e: "calls example_world = []" "content (example_request ''b'') = ''b''"
    by (simp_all add: example_defs stored_events_def)
  from append_events_pipeline [OF h1 h2] l c st d e h2
  show ?thesis by auto
qed

section \<open>Construct, then apply\<close>

text \<open>
  C5. In \<^verbatim>\<open>append_events\<close> and \<^verbatim>\<open>update_tracker\<close> the calls of every run are in
  pipeline order, so every construction precedes the fetch or creation of the tracker and
  every update. If the construction of an event of the batch fails, the error leaves the
  handler, and the world is as before but for the logged parse and construction calls:
  no tracker was fetched, updated or saved.
\<close>

theorem construct_then_apply:
  assumes "h = append_events \<or> h = update_tracker"
  shows "sorted (map stage (new_calls w (snd (h env req cid w)))) \<and>
         (\<forall>p err left cs.
            loads env (content req) = Some p \<longrightarrow>
            convert_obj_2_tracker_events p (agent_domain env) = (Inl err, left, cs) \<longrightarrow>
            list_all is_construct cs \<and>
            h env req cid w =
              (raised err, w\<lparr>calls := calls w @ JsonLoads (content req) # cs\<rparr>))"
proof -
  have second: "\<forall>p err left cs.
            loads env (content req) = Some p \<longrightarrow>
            convert_obj_2_tracker_events p (agent_domain env) = (Inl err, left, cs) \<longrightarrow>
            list_all is_construct cs \<and>
            h env req cid w =
              (raised err, w\<lparr>calls := calls w @ JsonLoads (content req) # cs\<rparr>)"
    using assms
    by (auto simp: append_events_convert_fails update_tracker_convert_fails dest: convert_calls)
  have first: "sorted (map stage (new_calls w (snd (h env req cid w))))"
  proof (cases "loads env (content req)")
    case None
    with assms show ?thesis
      by (auto simp: append_events_loads_fails update_tracker_loads_fails)
  next
    case (Some p)
    obtain r left cs where c: "convert_obj_2_tracker_events p (agent_domain env) = (r, left, cs)"
      by (cases "convert_obj_2_tracker_events p (agent_domain env)") auto
    then have cs: "list_all is_construct cs" by (rule convert_calls)
    note sp = sorted_pipeline_prefix [OF cs]
    show ?thesis
    proof (cases r)
      case (Inl err)
      with second Some c have "h env req cid w =
          (raised err, w\<lparr>calls := calls w @ JsonLoads (content req) # cs\<rparr>)" by simp
      with sp(1) show ?thesis by simp
    next
      case (Inr evs)
      from assms show ?thesis
      proof
        assume h: "h = append_events"
        from append_events_constructed [OF Some c [unfolded Inr], of cid w]
        obtain r' w' where "append_events env req cid w = (r', w')"
          and "calls w' = calls w @ JsonLoads (content req) # cs @ [GetOrCreateTracker cid] \<or>
               calls w' = calls w @ JsonLoads (content req) # cs @ GetOrCreateTracker cid #
                  map (TrackerUpdate cid) evs @ [Save cid (stored_events w cid @ evs)] \<or>
               calls w' = calls w @ JsonLoads (content req) # cs @ GetOrCreateTracker cid #
                  map (TrackerUpdate cid) evs @
                  [Save cid (stored_events w cid @ evs),
                   CurrentState cid (default_include_events env)]"
          by blast
        with h sp(2,3,4) show ?thesis by (elim disjE) simp_all
      next
        assume h: "h = update_tracker"
        with update_tracker_constructed [OF Some c [unfolded Inr], of cid w] sp(5,6)
        show ?thesis by simp
      qed
    qed
  qed
  from first second show ?thesis by blast
qed

theorem construct_then_apply_witness:
  "sorted (map stage (new_calls example_world
      (snd (update_tracker (example_env [(''b'', example_batch)]) (example_request ''b'')
              ''c'' example_world)))) \<and>
   loads (example_env [(''u'', JArr [JObj [(''event'', JStr ''restarted'')],
                                    JObj [(''event'', JStr ''bogus''), (''name'', JStr ''x'')],
                                    JObj [(''event'', JStr ''restarted'')]])])
     (content (example_request ''u'')) =
     Some (JArr [JObj [(''event'', JStr ''restarted'')],
                 JObj [(''event'', JStr ''bogus''), (''name'', JStr ''x'')],
                 JObj [(''event'', JStr ''restarted'')]]) \<and>
   update_tracker
     (example_env [(''u'', JArr [JObj [(''event'', JStr ''restarted'')],
                                 JObj [(''event'', JStr ''bogus''), (''name'', JStr ''x'')],
                                 JObj [(''event'', JStr ''restarted'')]])])
     (example_request ''u'') ''c'' example_world =
     (raised UnknownEventKind,
      example_world\<lparr>calls := calls example_world @
         [JsonLoads (content (example_request ''u'')),
          FromParameters (JStr ''restarted'') [],
          FromParameters (JStr ''bogus'') [(''name'', JStr ''x'')]]\<rparr>)"
proof -
  have h: "update_tracker = append_events \<or> update_tracker = update_tracker" by simp
  have l: "loads (example_env [(''u'', JArr [JObj [(''event'', JStr ''restarted'')],
                                    JObj [(''event'', JStr ''bogus''), (''name'', JStr ''x'')],
                                    JObj [(''event'', JStr ''restarted'')]])])
     (content (example_request ''u'')) =
     Some (JArr [JObj [(''event'', JStr ''restarted'')],
                 JObj [(''event'', JStr ''bogus''), (''name'', JStr ''x'')],
                 JObj [(''event'', JStr ''restarted'')]])"
    by (simp add: example_env_def example_request_def)
  have c: "convert_obj_2_tracker_events
       (JArr [JObj [(''event'', JStr ''restarted'')],
              JObj [(''event'', JStr ''bogus''), (''name'', JStr ''x'')],
              JObj [(''event'', JStr ''restarted'')]])
       (agent_domain
          (example_env [(''u'', JArr [JObj [(''event'', JStr ''restarted'')],
                                      JObj [(''event'', JStr ''bogus''), (''name'', JStr ''x'')],
                                      JObj [(''event'', JStr ''restarted'')]])])) =
     (Inl UnknownEventKind,
      JArr [JObj [], JObj [(''name'', JStr ''x'')], JObj [(''event'', JStr ''restarted'')]],
      [FromParameters (JStr ''restarted'') [],
       FromParameters (JStr ''bogus'') [(''name'', JStr ''x'')]])"
    by (simp add: example_defs run_defs)
  from construct_then_apply [OF h, where env = "example_env [(''b'', example_batch)]"
      and req = "example_request ''b''" and cid = "''c''" and w = example_world]
  have 1: "sorted (map stage (new_calls example_world
      (snd (update_tracker (example_env [(''b'', example_batch)]) (example_request ''b'')
              ''c'' example_world))))"
    by blast
  from construct_then_apply [OF h, where cid = "''c''" and w = example_world
      and env = "example_env [(''u'', JArr [JObj [(''event'', JStr ''restarted'')],
                                    JObj [(''event'', JStr ''bogus''), (''name'', JStr ''x'')],
                                    JObj [(''event'', JStr ''restarted'')]])]"
      and req = "example_request ''u''"] l c
  have 2: "update_tracker
     (example_env [(''u'', JArr [JObj [(''event'', JStr ''restarted'')],
                                 JObj [(''event'', JStr ''bogus''), (''name'', JStr ''x'')],
                                 JObj [(''event'', JStr ''restarted'')]])])
     (example_request ''u'') ''c'' example_world =
     (raised UnknownEventKind,
      example_world\<lparr>calls := calls example_world @
         [JsonLoads (content (example_request ''u'')),
          FromParameters (JStr ''restarted'') [],
          FromParameters (JStr ''bogus'') [(''name'', JStr ''x'')]]\<rparr>)"
    by simp
  from 1 l 2 show ?thesis by blast
qed

section \<open>Reading a tracker\<close>

text \<open>
  C6. \<^verbatim>\<open>retrieve_tracker\<close> never calls \<^verbatim>\<open>save\<close>. When it returns, it has got or
  created the tracker of the id and asked for its state with the events: the reply is the
  snapshot of the tracker rebuilt from the persisted log, and the snapshot's event list is
  that log, in order, each event in its wire shape.
\<close>

theorem retrieve_tracker_snapshot:
  "(\<forall>c \<in> set (new_calls w (snd (retrieve_tracker env req cid w))). \<not> is_save c) \<and>
   (\<forall>b. outcome (fst (retrieve_tracker env req cid w)) = Inr b \<longrightarrow>
      b = Dumps (current_state (rehydrate cid (stored_events w cid)) True) \<and>
      snapshot_events (current_state (rehydrate cid (stored_events w cid)) True) =
        Some (JArr (map as_dict (stored_events w cid))) \<and>
      new_calls w (snd (retrieve_tracker env req cid w)) =
        [GetOrCreateTracker cid, CurrentState cid True])"
  using retrieve_tracker_cases [of env req cid w]
  by (auto simp: snapshot_events_current_state)

theorem retrieve_tracker_snapshot_witness:
  "outcome (fst (retrieve_tracker (example_env []) (example_request []) ''c'' example_world)) =
     Inr (Dumps (current_state (rehydrate ''c'' (stored_events example_world ''c'')) True)) \<and>
   stored_events example_world ''c'' = [Restarted] \<and>
   snapshot_events (current_state (rehydrate ''c'' (stored_events example_world ''c'')) True) =
     Some (JArr (map as_dict (stored_events example_world ''c''))) \<and>
   new_calls example_world
     (snd (retrieve_tracker (example_env []) (example_request []) ''c'' example_world)) =
     [GetOrCreateTracker ''c'', CurrentState ''c'' True]"
proof -
  have h: "outcome (fst (retrieve_tracker (example_env []) (example_request []) ''c''
                           example_world)) =
     Inr (Dumps (current_state (rehydrate ''c'' (stored_events example_world ''c'')) True))"
    by (simp add: example_defs run_defs)
  have st: "stored_events example_world ''c'' = [Restarted]"
    by (simp add: example_defs stored_events_def)
  from retrieve_tracker_snapshot [of example_world "example_env []" "example_request []" "''c''"]
    h st
  show ?thesis by blast
qed

section \<open>The message of a parse request\<close>

text \<open>
  C10. In \<^verbatim>\<open>parse\<close>, when the request parameters are a mapping: if they contain the
  key \<^verbatim>\<open>query\<close>, its value is the message handed to the agent, whether or not
  \<^verbatim>\<open>q\<close> is present too; if they contain neither \<^verbatim>\<open>query\<close> nor \<^verbatim>\<open>q\<close>, the reply
  has status 404 and the body \<^verbatim>\<open>{"error": "Invalid parse parameter specified"}\<close>, and
  no message handling is invoked: the world is the one the parameters were read in.
\<close>

theorem parse_query_precedence:
  assumes "parse_params env req w = (Inr (JObj kvs), w1)"
  shows "(\<forall>m. map_of kvs ''query'' = Some m \<longrightarrow>
            parse env req cid w =
              (case start_message_handling env m cid (log (StartMessageHandling m cid) w1) of
                 (Inr response, w2) \<Rightarrow> (returned 200 (Dumps response), w2)
               | (Inl msg, w2) \<Rightarrow> (returned 500 (Dumps (JObj [(''error'', JStr msg)])), w2))) \<and>
         (map_of kvs ''query'' = None \<and> map_of kvs ''q'' = None \<longrightarrow>
            parse env req cid w =
              (returned 404
                 (Dumps (JObj [(''error'', JStr ''Invalid parse parameter specified'')])), w1) \<and>
            persisted w1 = persisted w \<and> faults w1 = faults w \<and>
            (new_calls w w1 = [] \<or> new_calls w w1 = [JsonLoads (content req)]))"
  using assms parse_params_world [OF assms]
  by (auto simp: parse_def select_message_query select_message_neither)

theorem parse_query_precedence_witness:
  "parse_params (example_env [(''p'', JObj [(''q'', JStr ''bye''), (''query'', JStr ''hello'')])])
     (example_request ''p'') example_world =
     (Inr (JObj [(''q'', JStr ''bye''), (''query'', JStr ''hello'')]),
      log (JsonLoads ''p'') example_world) \<and>
   parse (example_env [(''p'', JObj [(''q'', JStr ''bye''), (''query'', JStr ''hello'')])])
     (example_request ''p'') ''c'' example_world =
     (returned 200 (Dumps (JObj [(''text'', JStr ''hello'')])),
      log (StartMessageHandling (JStr ''hello'') ''c'') (log (JsonLoads ''p'') example_world)) \<and>
   parse_params (example_env []) \<lparr>request_method = ''GET'', args = [(''lang'', [''en''])],
                                   content = []\<rparr> example_world =
     (Inr (JObj [(''lang'', JStr ''en'')]), example_world) \<and>
   parse (example_env []) \<lparr>request_method = ''GET'', args = [(''lang'', [''en''])],
                            content = []\<rparr> ''c'' example_world =
     (returned 404 (Dumps (JObj [(''error'', JStr ''Invalid parse parameter specified'')])),
      example_world)"
proof -
  have h1: "parse_params
     (example_env [(''p'', JObj [(''q'', JStr ''bye''), (''query'', JStr ''hello'')])])
     (example_request ''p'') example_world =
     (Inr (JObj [(''q'', JStr ''bye''), (''query'', JStr ''hello'')]),
      log (JsonLoads ''p'') example_world)"
    by (simp add: parse_params_def example_env_def example_request_def)
  have h2: "parse_params (example_env []) \<lparr>request_method = ''GET'', args = [(''lang'', [''en''])],
                                   content = []\<rparr> example_world =
     (Inr (JObj [(''lang'', JStr ''en'')]), example_world)"
    by (simp add: parse_params_def example_env_def)
  from parse_query_precedence [OF h1, of "''c''"]
  have 1: "parse (example_env [(''p'', JObj [(''q'', JStr ''bye''), (''query'', JStr ''hello'')])])
     (example_request ''p'') ''c'' example_world =
     (returned 200 (Dumps (JObj [(''text'', JStr ''hello'')])),
      log (StartMessageHandling (JStr ''hello'') ''c'') (log (JsonLoads ''p'') example_world))"
    by (simp add: example_env_def)
  from parse_query_precedence [OF h2, of "''c''"]
  have 2: "parse (example_env []) \<lparr>request_method = ''GET'', args = [(''lang'', [''en''])],
                            content = []\<rparr> ''c'' example_world =
     (returned 404 (Dumps (JObj [(''error'', JStr ''Invalid parse parameter specified'')])),
      example_world)"
    by simp
  from h1 1 h2 2 show ?thesis by blast
qed

section \<open>Unknown event kinds\<close>

text \<open>
  C1, as amended. If a mapping of a batch carries under \<^verbatim>\<open>event\<close> a value other than
  \<^verbatim>\<open>None\<close> that is not a statically known kind, then \<^verbatim>\<open>append_events\<close>,
  \<^verbatim>\<open>update_tracker\<close> and \<^verbatim>\<open>continue_predicting\<close> fail on the batch before any call to
  the tracker store or the agent: the world is unchanged but for the logged parse and
  construction calls. The error is the one raised by the first element of the batch that
  is not accepted, all elements before it being accepted; it is \<open>UnknownEventKind\<close> when
  every mapping before the one of unknown kind is accepted. A mapping whose \<^verbatim>\<open>event\<close>
  key is absent or \<^verbatim>\<open>None\<close> is skipped without error and yields no event.
\<close>

theorem unknown_kind_fails_batch:
  assumes "event_kind m = Some k" and "k \<noteq> JNull" and "\<not> known_kind k"
  shows "(loads env (content req) = Some (JArr (pre @ m # post)) \<longrightarrow>
            (\<exists>err cs good bad rest.
               pre @ m # post = good @ bad # rest \<and>
               list_all (accepted (agent_domain env)) good \<and>
               step_error (agent_domain env) bad = Some err \<and>
               append_events env req cid w =
                 (raised err, w\<lparr>calls := calls w @ JsonLoads (content req) # cs\<rparr>) \<and>
               update_tracker env req cid w =
                 (raised err, w\<lparr>calls := calls w @ JsonLoads (content req) # cs\<rparr>) \<and>
               list_all is_construct cs \<and>
               (list_all (accepted (agent_domain env)) pre \<longrightarrow> err = UnknownEventKind))) \<and>
         (\<forall>kvs. loads env (content req) = Some (JObj kvs) \<and>
                map_of kvs ''events'' = Some (JArr (pre @ m # post)) \<longrightarrow>
            (\<exists>err cs good bad rest.
               pre @ m # post = good @ bad # rest \<and>
               list_all (accepted (agent_domain env)) good \<and>
               step_error (agent_domain env) bad = Some err \<and>
               continue_predicting env req cid w =
                 (raised err, w\<lparr>calls := calls w @ JsonLoads (content req) # cs\<rparr>) \<and>
               list_all is_construct cs \<and>
               (list_all (accepted (agent_domain env)) pre \<longrightarrow> err = UnknownEventKind))) \<and>
         (\<forall>m'. is_mapping m' \<and> \<not> bears_event m' \<longrightarrow>
                convert_step (agent_domain env) m' = (Inr None, m', []))"
proof -
  from batch_rejected [OF assms, of pre post "agent_domain env"]
  obtain err left cs where
    c: "convert_obj_2_tracker_events (JArr (pre @ m # post)) (agent_domain env) = (Inl err, left, cs)"
    and cs: "list_all is_construct cs"
    and e: "list_all (accepted (agent_domain env)) pre \<longrightarrow> err = UnknownEventKind"
    by blast
  from convert_batch_Inl [OF c] obtain good bad rest where
    g: "pre @ m # post = good @ bad # rest" "list_all (accepted (agent_domain env)) good"
       "step_error (agent_domain env) bad = Some err"
    by blast
  have 1: "loads env (content req) = Some (JArr (pre @ m # post)) \<longrightarrow>
            (\<exists>err cs good bad rest.
               pre @ m # post = good @ bad # rest \<and>
               list_all (accepted (agent_domain env)) good \<and>
               step_error (agent_domain env) bad = Some err \<and>
               append_events env req cid w =
                 (raised err, w\<lparr>calls := calls w @ JsonLoads (content req) # cs\<rparr>) \<and>
               update_tracker env req cid w =
                 (raised err, w\<lparr>calls := calls w @ JsonLoads (content req) # cs\<rparr>) \<and>
               list_all is_construct cs \<and>
               (list_all (accepted (agent_domain env)) pre \<longrightarrow> err = UnknownEventKind))"
  proof
    assume l: "loads env (content req) = Some (JArr (pre @ m # post))"
    from append_events_convert_fails [OF l c, of cid w]
      update_tracker_convert_fails [OF l c, of cid w] g cs e
    have "pre @ m # post = good @ bad # rest \<and>
               list_all (accepted (agent_domain env)) good \<and>
               step_error (agent_domain env) bad = Some err \<and>
               append_events env req cid w =
                 (raised err, w\<lparr>calls := calls w @ JsonLoads (content req) # cs\<rparr>) \<and>
               update_tracker env req cid w =
                 (raised err, w\<lparr>calls := calls w @ JsonLoads (content req) # cs\<rparr>) \<and>
               list_all is_construct cs \<and>
               (list_all (accepted (agent_domain env)) pre \<longrightarrow> err = UnknownEventKind)"
      by (intro conjI) assumption+
    then show "\<exists>err cs good bad rest.
               pre @ m # post = good @ bad # rest \<and>
               list_all (accepted (agent_domain env)) good \<and>
               step_error (agent_domain env) bad = Some err \<and>
               append_events env req cid w =
                 (raised err, w\<lparr>calls := calls w @ JsonLoads (content req) # cs\<rparr>) \<and>
               update_tracker env req cid w =
                 (raised err, w\<lparr>calls := calls w @ JsonLoads (content req) # cs\<rparr>) \<and>
               list_all is_construct cs \<and>
               (list_all (accepted (agent_domain env)) pre \<longrightarrow> err = UnknownEventKind)"
      by (intro exI)
  qed
  have 2: "\<forall>kvs. loads env (content req) = Some (JObj kvs) \<and>
                map_of kvs ''events'' = Some (JArr (pre @ m # post)) \<longrightarrow>
            (\<exists>err cs good bad rest.
               pre @ m # post = good @ bad # rest \<and>
               list_all (accepted (agent_domain env)) good \<and>
               step_error (agent_domain env) bad = Some err \<and>
               continue_predicting env req cid w =
                 (raised err, w\<lparr>calls := calls w @ JsonLoads (content req) # cs\<rparr>) \<and>
               list_all is_construct cs \<and>
               (list_all (accepted (agent_domain env)) pre \<longrightarrow> err = UnknownEventKind))"
  proof (intro allI impI)
    fix kvs
    assume "loads env (content req) = Some (JObj kvs) \<and>
            map_of kvs ''events'' = Some (JArr (pre @ m # post))"
    with c have "continue_predicting env req cid w =
                 (raised err, w\<lparr>calls := calls w @ JsonLoads (content req) # cs\<rparr>)"
      by (simp add: continue_predicting_def Let_def log_def logs_def)
    with g cs e have "pre @ m # post = good @ bad # rest \<and>
               list_all (accepted (agent_domain env)) good \<and>
               step_error (agent_domain env) bad = Some err \<and>
               continue_predicting env req cid w =
                 (raised err, w\<lparr>calls := calls w @ JsonLoads (content req) # cs\<rparr>) \<and>
               list_all is_construct cs \<and>
               (list_all (accepted (agent_domain env)) pre \<longrightarrow> err = UnknownEventKind)"
      by (intro conjI) assumption+
    then show "\<exists>err cs good bad rest.
               pre @ m # post = good @ bad # rest \<and>
               list_all (accepted (agent_domain env)) good \<and>
               step_error (agent_domain env) bad = Some err \<and>
               continue_predicting env req cid w =
                 (raised err, w\<lparr>calls := calls w @ JsonLoads (content req) # cs\<rparr>) \<and>
               list_all is_construct cs \<and>
               (list_all (accepted (agent_domain env)) pre \<longrightarrow> err = UnknownEventKind)"
      by (intro exI)
  qed
  have 3: "\<forall>m'. is_mapping m' \<and> \<not> bears_event m' \<longrightarrow>
                convert_step (agent_domain env) m' = (Inr None, m', [])"
    by (simp add: convert_step_skip)
  from 1 2 3 show ?thesis by (intro conjI)
qed

theorem unknown_kind_fails_batch_witness:
  "event_kind unknown_mapping = Some (JStr ''bogus'') \<and>
   JStr ''bogus'' \<noteq> JNull \<and> \<not> known_kind (JStr ''bogus'') \<and>
   list_all (accepted example_domain) accepted_mappings \<and>
   fst (append_events
          (example_env [(''u'', JArr (accepted_mappings @ unknown_mapping # [invalid_mapping]))])
          (example_request ''u'') ''c'' example_world) = raised UnknownEventKind \<and>
   persisted (snd (append_events
          (example_env [(''u'', JArr (accepted_mappings @ unknown_mapping # [invalid_mapping]))])
          (example_request ''u'') ''c'' example_world)) = persisted example_world \<and>
   fst (continue_predicting
          (example_env [(''k'', JObj [(''events'',
              JArr (accepted_mappings @ unknown_mapping # [invalid_mapping]))])])
          (example_request ''k'') ''c'' example_world) = raised UnknownEventKind \<and>
   step_error example_domain invalid_mapping = Some InvalidEventParams \<and>
   fst (update_tracker
          (example_env [(''v'', JArr ([invalid_mapping] @ unknown_mapping # []))])
          (example_request ''v'') ''c'' example_world) = raised InvalidEventParams \<and>
   convert_step example_domain (JObj [(''note'', JStr ''no event key'')]) =
     (Inr None, JObj [(''note'', JStr ''no event key'')], [])"
proof -
  have a1: "event_kind unknown_mapping = Some (JStr ''bogus'')"
    by (simp add: unknown_mapping_def)
  have a2: "JStr ''bogus'' \<noteq> JNull" by simp
  have a3: "\<not> known_kind (JStr ''bogus'')" by (simp add: known_kinds_def)
  have acc: "list_all (accepted example_domain) accepted_mappings"
    by (simp add: accepted_mappings_def accepted_def bears_event_def construct_def kind_of_def
        from_parameters_def)
  have se: "step_error example_domain invalid_mapping = Some InvalidEventParams"
    by (simp add: invalid_mapping_def step_error_def bears_event_def construct_def kind_of_def
        from_parameters_def)
  have na: "\<not> accepted example_domain invalid_mapping"
    by (simp add: accepted_iff se)
  have d: "agent_domain (example_env bs) = example_domain" for bs
    by (simp add: example_env_def)
  have l1: "loads
      (example_env [(''u'', JArr (accepted_mappings @ unknown_mapping # [invalid_mapping]))])
      (content (example_request ''u'')) =
      Some (JArr (accepted_mappings @ unknown_mapping # [invalid_mapping]))"
    by (simp add: example_env_def example_request_def)
  have l2: "loads
      (example_env [(''k'', JObj [(''events'',
              JArr (accepted_mappings @ unknown_mapping # [invalid_mapping]))])])
      (content (example_request ''k'')) =
      Some (JObj [(''events'', JArr (accepted_mappings @ unknown_mapping # [invalid_mapping]))]) \<and>
      map_of [(''events'', JArr (accepted_mappings @ unknown_mapping # [invalid_mapping]))]
        ''events'' = Some (JArr (accepted_mappings @ unknown_mapping # [invalid_mapping]))"
    by (simp add: example_env_def example_request_def)
  have l3: "loads (example_env [(''v'', JArr ([invalid_mapping] @ unknown_mapping # []))])
      (content (example_request ''v'')) = Some (JArr ([invalid_mapping] @ unknown_mapping # []))"
    by (simp add: example_env_def example_request_def)
  note t1 = unknown_kind_fails_batch [OF a1 a2 a3,
      where env = "example_env [(''u'', JArr (accepted_mappings @ unknown_mapping # [invalid_mapping]))]"
      and req = "example_request ''u''" and cid = "''c''" and w = example_world
      and pre = accepted_mappings and post = "[invalid_mapping]"]
  note t2 = unknown_kind_fails_batch [OF a1 a2 a3,
      where env = "example_env [(''k'', JObj [(''events'',
              JArr (accepted_mappings @ unknown_mapping # [invalid_mapping]))])]"
      and req = "example_request ''k''" and cid = "''c''" and w = example_world
      and pre = accepted_mappings and post = "[invalid_mapping]"]
  note t3 = unknown_kind_fails_batch [OF a1 a2 a3,
      where env = "example_env [(''v'', JArr ([invalid_mapping] @ unknown_mapping # []))]"
      and req = "example_request ''v''" and cid = "''c''" and w = example_world
      and pre = "[invalid_mapping]" and post = "[]"]
  from t1 [THEN conjunct1, THEN mp, OF l1]
  have r1: "fst (append_events
          (example_env [(''u'', JArr (accepted_mappings @ unknown_mapping # [invalid_mapping]))])
          (example_request ''u'') ''c'' example_world) = raised UnknownEventKind \<and>
      persisted (snd (append_events
          (example_env [(''u'', JArr (accepted_mappings @ unknown_mapping # [invalid_mapping]))])
          (example_request ''u'') ''c'' example_world)) = persisted example_world"
  proof (elim exE conjE)
    fix err cs good bad rest
    assume i: "list_all (accepted (agent_domain
          (example_env [(''u'', JArr (accepted_mappings @ unknown_mapping # [invalid_mapping]))])))
          accepted_mappings \<longrightarrow> err = UnknownEventKind"
      and g: "append_events
          (example_env [(''u'', JArr (accepted_mappings @ unknown_mapping # [invalid_mapping]))])
          (example_request ''u'') ''c'' example_world =
          (raised err, example_world\<lparr>calls := calls example_world @
             JsonLoads (content (example_request ''u'')) # cs\<rparr>)"
    from i acc have "err = UnknownEventKind" unfolding d by (rule mp)
    with g show ?thesis by simp
  qed
  from t2 [THEN conjunct2, THEN conjunct1, THEN spec, THEN mp, OF l2]
  have r2: "fst (continue_predicting
          (example_env [(''k'', JObj [(''events'',
              JArr (accepted_mappings @ unknown_mapping # [invalid_mapping]))])])
          (example_request ''k'') ''c'' example_world) = raised UnknownEventKind"
  proof (elim exE conjE)
    fix err cs good bad rest
    assume i: "list_all (accepted (agent_domain
          (example_env [(''k'', JObj [(''events'',
              JArr (accepted_mappings @ unknown_mapping # [invalid_mapping]))])])))
          accepted_mappings \<longrightarrow> err = UnknownEventKind"
      and g: "continue_predicting
          (example_env [(''k'', JObj [(''events'',
              JArr (accepted_mappings @ unknown_mapping # [invalid_mapping]))])])
          (example_request ''k'') ''c'' example_world =
          (raised err, example_world\<lparr>calls := calls example_world @
             JsonLoads (content (example_request ''k'')) # cs\<rparr>)"
    from i acc have "err = UnknownEventKind" unfolding d by (rule mp)
    with g show ?thesis by simp
  qed
  from t3 [THEN conjunct1, THEN mp, OF l3]
  have r3: "fst (update_tracker
          (example_env [(''v'', JArr ([invalid_mapping] @ unknown_mapping # []))])
          (example_request ''v'') ''c'' example_world) = raised InvalidEventParams"
  proof (elim exE conjE)
    fix err cs good bad rest
    assume g1: "[invalid_mapping] @ unknown_mapping # [] = good @ bad # rest"
      and g2: "list_all (accepted (agent_domain
          (example_env [(''v'', JArr ([invalid_mapping] @ unknown_mapping # []))]))) good"
      and g3: "step_error (agent_domain
          (example_env [(''v'', JArr ([invalid_mapping] @ unknown_mapping # []))])) bad = Some err"
      and g4: "update_tracker
          (example_env [(''v'', JArr ([invalid_mapping] @ unknown_mapping # []))])
          (example_request ''v'') ''c'' example_world =
          (raised err, example_world\<lparr>calls := calls example_world @
             JsonLoads (content (example_request ''v'')) # cs\<rparr>)"
    have b: "bad = invalid_mapping"
      using g1 g2 [unfolded d] na by (rule first_of_two [where P = "accepted example_domain"])
    from g3 have "step_error example_domain invalid_mapping = Some err" unfolding b d .
    with se have "err = InvalidEventParams" by (simp only: option.inject)
    with g4 show ?thesis by simp
  qed
  from t1 [THEN conjunct2, THEN conjunct2, THEN spec,
      where x = "JObj [(''note'', JStr ''no event key'')]"]
  have r4: "convert_step example_domain (JObj [(''note'', JStr ''no event key'')]) =
     (Inr None, JObj [(''note'', JStr ''no event key'')], [])"
    unfolding d by (simp add: bears_event_def)
  from a1 a2 a3 acc r1 r2 se r3 r4 show ?thesis by (intro conjI) (elim conjE, assumption)+
qed

text \<open>
  The claim as first stated fails in two ways. A mapping whose kind is \<^verbatim>\<open>None\<close>, which
  is not a known kind, is dropped silently and the request succeeds; and a batch in which
  an element that raises precedes the mapping of unknown kind fails with that element's
  error, \<open>InvalidEventParams\<close> for a mapping that lacks its parameters and
  \<open>AttributeError\<close> for an element that is not a mapping, not with \<open>UnknownEventKind\<close>.
\<close>

theorem unknown_kind_counterexample:
  "event_kind (JObj [(''event'', JNull), (''name'', JStr ''x'')]) = Some JNull \<and>
   \<not> known_kind JNull \<and>
   append_events (example_env [(''n'', JArr [JObj [(''event'', JNull), (''name'', JStr ''x'')]])])
     (example_request ''n'') ''c'' example_world =
     (returned 200 (Dumps (current_state (rehydrate ''c'' [Restarted]) False)),
      example_world\<lparr>calls := [JsonLoads ''n'', GetOrCreateTracker ''c'',
                                Save ''c'' [Restarted], CurrentState ''c'' False]\<rparr>) \<and>
   event_kind (JObj [(''event'', JStr ''bogus'')]) = Some (JStr ''bogus'') \<and>
   \<not> known_kind (JStr ''bogus'') \<and>
   fst (append_events
          (example_env [(''i'', JArr [JObj [(''event'', JStr ''set_slot'')],
                                      JObj [(''event'', JStr ''bogus'')]])])
          (example_request ''i'') ''c'' example_world) = raised InvalidEventParams \<and>
   raised InvalidEventParams \<noteq> raised UnknownEventKind \<and>
   fst (append_events
          (example_env [(''a'', JArr [JNum 5, JObj [(''event'', JStr ''bogus'')]])])
          (example_request ''a'') ''c'' example_world) = raised AttributeError"
  by (simp add: example_defs run_defs)

section \<open>Failing requests and other conversations\<close>

text \<open>
  What the model can say of a request that fails. A request for one conversation id leaves
  the persisted state of every other id as it was, whether it succeeds or fails:
  unconditionally for the handlers that work on the tracker store themselves and for
  \<^verbatim>\<open>hello\<close> and \<^verbatim>\<open>version\<close>, and for \<^verbatim>\<open>parse\<close> and \<^verbatim>\<open>continue_predicting\<close>
  provided the agent's own handling is scoped to the id it is given. A payload that does
  not parse and an event that cannot be constructed leave \<^verbatim>\<open>append_events\<close> as the
  exception, with nothing persisted, and an exception of the message handling is caught by
  \<^verbatim>\<open>parse\<close> and answered with status 500 and the exception's text. What becomes of an
  exception that leaves a handler is decided by the web framework, outside this file.
\<close>

lemma failure_is_scoped:
  assumes "c \<noteq> cid"
  shows "persisted (snd (append_events env req cid w)) c = persisted w c \<and>
         persisted (snd (update_tracker env req cid w)) c = persisted w c \<and>
         persisted (snd (retrieve_tracker env req cid w)) c = persisted w c \<and>
         persisted (snd (hello env req w)) = persisted w \<and>
         persisted (snd (version_handler env req w)) = persisted w \<and>
         (agent_scoped env \<longrightarrow>
            persisted (snd (parse env req cid w)) c = persisted w c \<and>
            persisted (snd (continue_predicting env req cid w)) c = persisted w c) \<and>
         (loads env (content req) = None \<longrightarrow>
            fst (append_events env req cid w) = raised ValueError \<and>
            persisted (snd (append_events env req cid w)) = persisted w) \<and>
         (\<forall>p err left cs.
            loads env (content req) = Some p \<and>
            convert_obj_2_tracker_events p (agent_domain env) = (Inl err, left, cs) \<longrightarrow>
            fst (append_events env req cid w) = raised err \<and>
            persisted (snd (append_events env req cid w)) = persisted w) \<and>
         (\<forall>p w1 m msg w2.
            parse_params env req w = (Inr p, w1) \<and> select_message p = Inr (Some m) \<and>
            start_message_handling env m cid (log (StartMessageHandling m cid) w1) =
              (Inl msg, w2) \<longrightarrow>
            parse env req cid w =
              (returned 500 (Dumps (JObj [(''error'', JStr msg)])), w2))"
proof -
  have 1: "persisted (snd (hello env req w)) = persisted w"
    and 2: "persisted (snd (version_handler env req w)) = persisted w"
    by (simp_all add: hello_def version_handler_def)
  have 3: "loads env (content req) = None \<longrightarrow>
            fst (append_events env req cid w) = raised ValueError \<and>
            persisted (snd (append_events env req cid w)) = persisted w"
    by (simp add: append_events_loads_fails)
  have 4: "\<forall>p err left cs.
            loads env (content req) = Some p \<and>
            convert_obj_2_tracker_events p (agent_domain env) = (Inl err, left, cs) \<longrightarrow>
            fst (append_events env req cid w) = raised err \<and>
            persisted (snd (append_events env req cid w)) = persisted w"
    by (auto simp: append_events_convert_fails)
  have 5: "\<forall>p w1 m msg w2.
            parse_params env req w = (Inr p, w1) \<and> select_message p = Inr (Some m) \<and>
            start_message_handling env m cid (log (StartMessageHandling m cid) w1) =
              (Inl msg, w2) \<longrightarrow>
            parse env req cid w =
              (returned 500 (Dumps (JObj [(''error'', JStr msg)])), w2)"
    by (auto simp: parse_def)
  from assms 1 2 3 4 5 show ?thesis
    using append_events_frame [of c cid env req w] update_tracker_frame [of c cid env req w]
      retrieve_tracker_frame [of c cid env req w] parse_frame [of env c cid req w]
      continue_predicting_frame [of env c cid req w]
    by blast
qed

lemma failure_is_scoped_example:
  "''c'' \<noteq> ''d'' \<and> agent_scoped (example_env [(''b'', example_batch)]) \<and>
   persisted example_world ''c'' = Some [Restarted] \<and>
   persisted (snd (append_events (example_env [(''b'', example_batch)]) (example_request ''b'')
                     ''d'' example_world)) ''c'' = persisted example_world ''c'' \<and>
   persisted (snd (parse (example_env [(''b'', example_batch)]) (example_request ''b'')
                     ''d'' example_world)) ''c'' = persisted example_world ''c'' \<and>
   loads (example_env [(''b'', example_batch)]) (content (example_request ''zz'')) = None \<and>
   fst (append_events (example_env [(''b'', example_batch)]) (example_request ''zz'')
          ''d'' example_world) = raised ValueError \<and>
   fst (append_events (example_env [(''i'', JArr [JObj [(''event'', JStr ''bogus'')]])])
          (example_request ''i'') ''d'' example_world) = raised UnknownEventKind \<and>
   fst (parse ((example_env [(''p'', JObj [(''q'', JStr ''hi'')])])
                 \<lparr>start_message_handling := (\<lambda>message cid w. (Inl ''no policy'', w))\<rparr>)
          (example_request ''p'') ''d'' example_world) =
     returned 500 (Dumps (JObj [(''error'', JStr ''no policy'')]))"
proof -
  have ne: "''c'' \<noteq> ''d''" by simp
  have ag: "agent_scoped (example_env [(''b'', example_batch)])"
    by (simp add: agent_scoped_def example_env_def)
  have p: "persisted example_world ''c'' = Some [Restarted]"
    by (simp add: example_world_def)
  have l: "loads (example_env [(''b'', example_batch)]) (content (example_request ''zz'')) = None"
    by (simp add: example_env_def example_request_def)
  have li: "loads (example_env [(''i'', JArr [JObj [(''event'', JStr ''bogus'')]])])
              (content (example_request ''i'')) = Some (JArr [JObj [(''event'', JStr ''bogus'')]])"
    by (simp add: example_env_def example_request_def)
  have ci: "convert_obj_2_tracker_events (JArr [JObj [(''event'', JStr ''bogus'')]])
              (agent_domain (example_env [(''i'', JArr [JObj [(''event'', JStr ''bogus'')]])])) =
            (Inl UnknownEventKind, JArr [JObj []], [FromParameters (JStr ''bogus'') []])"
    by (simp add: example_defs run_defs)
  have pp: "parse_params ((example_env [(''p'', JObj [(''q'', JStr ''hi'')])])
                 \<lparr>start_message_handling := (\<lambda>message cid w. (Inl ''no policy'', w))\<rparr>)
              (example_request ''p'') example_world =
            (Inr (JObj [(''q'', JStr ''hi'')]), log (JsonLoads ''p'') example_world)"
    by (simp add: parse_params_def example_env_def example_request_def)
  have sm: "select_message (JObj [(''q'', JStr ''hi'')]) = Inr (Some (JStr ''hi''))"
    by (simp add: select_message_def)
  have ah: "start_message_handling ((example_env [(''p'', JObj [(''q'', JStr ''hi'')])])
                 \<lparr>start_message_handling := (\<lambda>message cid w. (Inl ''no policy'', w))\<rparr>)
              (JStr ''hi'') ''d''
              (log (StartMessageHandling (JStr ''hi'') ''d'') (log (JsonLoads ''p'') example_world)) =
            (Inl ''no policy'',
             log (StartMessageHandling (JStr ''hi'') ''d'') (log (JsonLoads ''p'') example_world))"
    by simp
  note t1 = failure_is_scoped [OF ne, where env = "example_env [(''b'', example_batch)]"
      and req = "example_request ''b''" and w = example_world]
  note t2 = failure_is_scoped [OF ne, where env = "example_env [(''b'', example_batch)]"
      and req = "example_request ''zz''" and w = example_world]
  note t3 = failure_is_scoped [OF ne,
      where env = "example_env [(''i'', JArr [JObj [(''event'', JStr ''bogus'')]])]"
      and req = "example_request ''i''" and w = example_world]
  note t4 = failure_is_scoped [OF ne,
      where env = "(example_env [(''p'', JObj [(''q'', JStr ''hi'')])])
                 \<lparr>start_message_handling := (\<lambda>message cid w. (Inl ''no policy'', w))\<rparr>"
      and req = "example_request ''p''" and w = example_world]
  from t1 ag have a: "persisted (snd (append_events (example_env [(''b'', example_batch)])
        (example_request ''b'') ''d'' example_world)) ''c'' = persisted example_world ''c''"
    and b: "persisted (snd (parse (example_env [(''b'', example_batch)])
        (example_request ''b'') ''d'' example_world)) ''c'' = persisted example_world ''c''"
    by blast+
  from t2 l have c: "fst (append_events (example_env [(''b'', example_batch)])
        (example_request ''zz'') ''d'' example_world) = raised ValueError"
    by blast
  from t3 li ci have d: "fst (append_events
        (example_env [(''i'', JArr [JObj [(''event'', JStr ''bogus'')]])])
        (example_request ''i'') ''d'' example_world) = raised UnknownEventKind"
    by blast
  from t4 pp sm ah have e: "fst (parse ((example_env [(''p'', JObj [(''q'', JStr ''hi'')])])
                 \<lparr>start_message_handling := (\<lambda>message cid w. (Inl ''no policy'', w))\<rparr>)
          (example_request ''p'') ''d'' example_world) =
     returned 500 (Dumps (JObj [(''error'', JStr ''no policy'')]))"
    by (metis fst_conv)
  from ne ag p a b l c d e show ?thesis by blast
qed

end
